theory Spec2Isabelle
  imports Complex_Main
begin

section \<open>Floating-point values\<close>

text \<open>
  A cell of a NumPy float array. Finite values are idealised as reals (exact arithmetic:
  no rounding, no overflow); the IEEE special values that the program's control flow
  depends on are kept: \<open>NaN\<close> (the filling of a masked cell, the square root of a
  negative number) and the two infinities (a division by zero). Break points of a curve
  and the coefficients of an affine transform are finite, hence reals.
\<close>

datatype fval = NaN | NInf | Fin real | PInf

datatype error = ValueError | IndexError

fun fneg :: "fval \<Rightarrow> fval" where
  "fneg NaN = NaN"
| "fneg NInf = PInf"
| "fneg (Fin x) = Fin (- x)"
| "fneg PInf = NInf"

fun fadd :: "fval \<Rightarrow> fval \<Rightarrow> fval" where
  "fadd NaN _ = NaN"
| "fadd _ NaN = NaN"
| "fadd (Fin x) (Fin y) = Fin (x + y)"
| "fadd PInf NInf = NaN"
| "fadd NInf PInf = NaN"
| "fadd PInf _ = PInf"
| "fadd _ PInf = PInf"
| "fadd NInf _ = NInf"
| "fadd _ NInf = NInf"

definition fsub :: "fval \<Rightarrow> fval \<Rightarrow> fval" where
  "fsub u v = fadd u (fneg v)"

text \<open>The sign of a value: \<open>Some True\<close> positive, \<open>Some False\<close> negative, \<open>None\<close> zero or NaN.\<close>

fun fsign :: "fval \<Rightarrow> bool option" where
  "fsign NaN = None"
| "fsign NInf = Some False"
| "fsign PInf = Some True"
| "fsign (Fin x) = (if 0 < x then Some True else if x < 0 then Some False else None)"

fun fmul :: "fval \<Rightarrow> fval \<Rightarrow> fval" where
  "fmul NaN _ = NaN"
| "fmul _ NaN = NaN"
| "fmul (Fin x) (Fin y) = Fin (x * y)"
| "fmul u v =
     (case (fsign u, fsign v) of
        (Some s, Some t) \<Rightarrow> (if s = t then PInf else NInf)
      | _ \<Rightarrow> NaN)"

text \<open>Comparisons: every comparison with NaN is false.\<close>

fun flt :: "fval \<Rightarrow> fval \<Rightarrow> bool" where
  "flt NaN _ = False"
| "flt _ NaN = False"
| "flt (Fin x) (Fin y) = (x < y)"
| "flt NInf NInf = False"
| "flt NInf _ = True"
| "flt _ NInf = False"
| "flt PInf _ = False"
| "flt _ PInf = True"

definition fgt :: "fval \<Rightarrow> fval \<Rightarrow> bool" where
  "fgt u v = flt v u"

text \<open>
  \<open>np.sqrt\<close>: the square root of a negative number is NaN (NumPy warns, it does not raise).
\<close>

fun np_sqrt :: "fval \<Rightarrow> fval" where
  "np_sqrt NaN = NaN"
| "np_sqrt NInf = NaN"
| "np_sqrt PInf = PInf"
| "np_sqrt (Fin x) = (if x < 0 then NaN else Fin (sqrt x))"

text \<open>
  The quotient of two finite floats, as computed for a slope: a zero denominator gives
  an infinity of the numerator's sign, and \<open>0 / 0\<close> gives NaN (NumPy warns, it does not
  raise). The denominators of the program are differences \<open>x1 - x0\<close>, which are \<open>+0\<close>
  when zero.
\<close>

definition np_div :: "real \<Rightarrow> real \<Rightarrow> fval" where
  "np_div p q =
     (if q \<noteq> 0 then Fin (p / q)
      else if 0 < p then PInf else if p < 0 then NInf else NaN)"

definition isfinite :: "fval \<Rightarrow> bool" where
  "isfinite v = (case v of Fin _ \<Rightarrow> True | _ \<Rightarrow> False)"

section \<open>\<open>np.interp\<close>\<close>

text \<open>
  \<open>np.interp\<close> is NumPy's, not this repository's. It is modelled after NumPy's
  implementation for a non-decreasing \<open>xp\<close> (the only case NumPy defines; the program
  sorts its curves):
  \<^item> an empty \<open>xp\<close>, or \<open>fp\<close> of another length, raises ValueError;
  \<^item> a single break point has its own branch,
    \<open>(x < xp[0]) ? fp[0] : ((x > xp[0]) ? fp[-1] : fp[0])\<close>, which has no test for NaN:
    every cell, a NaN one too, gets \<open>fp[0]\<close>;
  \<^item> with more break points a NaN input gives NaN;
  \<^item> an input below \<open>xp[0]\<close> gives \<open>fp[0]\<close>, one above \<open>xp[-1]\<close> gives \<open>fp[-1]\<close>;
  \<^item> otherwise the index \<open>j\<close> with \<open>xp[j] \<le> x < xp[j+1]\<close> is searched (written here as
    the linear scan \<open>for (i = 1; i < len && key >= arr[i]; ++i); return i - 1\<close> that
    NumPy uses on short arrays; its bisection returns the same index on a sorted array);
    \<open>j = len - 1\<close> and \<open>xp[j] = x\<close> give \<open>fp[j]\<close>, and any other input gives
    \<open>slope * (x - xp[j]) + fp[j]\<close> with the slope of segment \<open>j\<close>.
\<close>

definition search_index :: "real list \<Rightarrow> real \<Rightarrow> nat" where
  "search_index xp x = length (takeWhile (\<lambda>a. a \<le> x) (tl xp))"

definition interp_in_range :: "real list \<Rightarrow> real list \<Rightarrow> real \<Rightarrow> real" where
  "interp_in_range xp fp x =
     (let j = search_index xp x in
      if j = length xp - 1 then fp ! j
      else if xp ! j = x then fp ! j
      else (fp ! (j + 1) - fp ! j) / (xp ! (j + 1) - xp ! j) * (x - xp ! j) + fp ! j)"

definition interp_cell_single :: "real list \<Rightarrow> real list \<Rightarrow> fval \<Rightarrow> fval" where
  "interp_cell_single xp fp v =
     (if flt v (Fin (xp ! 0)) then Fin (fp ! 0)
      else if fgt v (Fin (xp ! 0)) then Fin (last fp)
      else Fin (fp ! 0))"

fun interp_cell_search :: "real list \<Rightarrow> real list \<Rightarrow> fval \<Rightarrow> fval" where
  "interp_cell_search xp fp NaN = NaN"
| "interp_cell_search xp fp NInf = Fin (fp ! 0)"
| "interp_cell_search xp fp PInf = Fin (last fp)"
| "interp_cell_search xp fp (Fin x) =
     (if last xp < x then Fin (last fp)
      else if x < xp ! 0 then Fin (fp ! 0)
      else Fin (interp_in_range xp fp x))"

definition interp_cell :: "real list \<Rightarrow> real list \<Rightarrow> fval \<Rightarrow> fval" where
  "interp_cell xp fp v =
     (if length xp = 1 then interp_cell_single xp fp v else interp_cell_search xp fp v)"

definition np_interp :: "fval list \<Rightarrow> real list \<Rightarrow> real list \<Rightarrow> error + fval list" where
  "np_interp arr xp fp =
     (if xp = [] then Inl ValueError
      else if length fp \<noteq> length xp then Inl ValueError
      else Inr (map (interp_cell xp fp) arr))"

section \<open>\<open>piecewise_linear\<close>\<close>

text \<open>
  An array of any shape is the list of its cells in storage order: every operation of
  \<open>piecewise_linear\<close> is cell-wise. The masked assignment \<open>si[left] = e(arr[left])\<close>
  replaces the cells selected by the mask and keeps the others.

  \<open>y_pts[1]\<close>, \<open>x_pts[1]\<close>, \<open>y_pts[-2]\<close> and \<open>x_pts[-2]\<close> raise IndexError on an array
  with fewer than two elements; they are evaluated only when some cell is selected
  (\<open>np.any\<close>). When they are reached \<open>np.interp\<close> has returned, so both arrays have
  the same, non-zero length.
\<close>

definition np_any :: "bool list \<Rightarrow> bool" where
  "np_any bs = (True \<in> set bs)"

definition assign_where :: "bool list \<Rightarrow> fval list \<Rightarrow> fval list \<Rightarrow> fval list" where
  "assign_where msk new old = map (\<lambda>(m, n, s). if m then n else s) (zip msk (zip new old))"

definition extrapolate_left :: "fval list \<Rightarrow> real list \<Rightarrow> real list \<Rightarrow> fval list \<Rightarrow> error + fval list" where
  "extrapolate_left arr x_pts y_pts si =
     (if x_pts = [] then Inl IndexError
      else
        let left = map (\<lambda>v. flt v (Fin (x_pts ! 0))) arr in
        if \<not> np_any left then Inr si
        else if length y_pts < 2 \<or> length x_pts < 2 then Inl IndexError
        else
          let slope_left = np_div (y_pts ! 1 - y_pts ! 0) (x_pts ! 1 - x_pts ! 0) in
          Inr (assign_where left
                 (map (\<lambda>v. fadd (Fin (y_pts ! 0)) (fmul slope_left (fsub v (Fin (x_pts ! 0))))) arr)
                 si))"

definition extrapolate_right :: "fval list \<Rightarrow> real list \<Rightarrow> real list \<Rightarrow> fval list \<Rightarrow> error + fval list" where
  "extrapolate_right arr x_pts y_pts si =
     (if x_pts = [] then Inl IndexError
      else
        let right = map (\<lambda>v. fgt v (Fin (last x_pts))) arr in
        if \<not> np_any right then Inr si
        else if length y_pts < 2 \<or> length x_pts < 2 then Inl IndexError
        else
          let slope_right =
                np_div (last y_pts - y_pts ! (length y_pts - 2))
                       (last x_pts - x_pts ! (length x_pts - 2)) in
          Inr (assign_where right
                 (map (\<lambda>v. fadd (Fin (last y_pts)) (fmul slope_right (fsub v (Fin (last x_pts))))) arr)
                 si))"

definition piecewise_linear :: "fval list \<Rightarrow> real list \<Rightarrow> real list \<Rightarrow> error + fval list" where
  "piecewise_linear arr x_pts y_pts =
     (case np_interp arr x_pts y_pts of
        Inl e \<Rightarrow> Inl e
      | Inr si \<Rightarrow>
          (case extrapolate_left arr x_pts y_pts si of
             Inl e \<Rightarrow> Inl e
           | Inr si' \<Rightarrow> extrapolate_right arr x_pts y_pts si'))"

section \<open>\<open>read_suitability_csv\<close>\<close>

text \<open>
  Parsing the file is pandas' work. The model starts from the parsed table: one row per
  line after the header, with the four columns \<open>h, si_h, v, si_v\<close>; an empty or missing
  field is \<open>None\<close> (pandas' NaN). \<open>dropna\<close> keeps the rows of a two-column frame in
  which both fields are present; \<open>sort_values\<close> orders them by the first column.
  Rows with the same x come out of pandas' default sort (a quicksort, not stable) in an
  order that is not defined; the model keeps their order of the table, and no statement
  below depends on it. The function has no check on the number of rows that remain.
\<close>

type_synonym csv_row = "real option \<times> real option \<times> real option \<times> real option"

definition dropna :: "(real option \<times> real option) list \<Rightarrow> (real \<times> real) list" where
  "dropna df =
     List.map_filter (\<lambda>(p, q). case p of None \<Rightarrow> None
                                  | Some x \<Rightarrow> (case q of None \<Rightarrow> None | Some y \<Rightarrow> Some (x, y))) df"

definition sort_values :: "(real \<times> real) list \<Rightarrow> (real \<times> real) list" where
  "sort_values df = sort_key fst df"

definition read_suitability_csv :: "csv_row list \<Rightarrow> real list \<times> real list \<times> real list \<times> real list" where
  "read_suitability_csv raw =
     (let depth_df = sort_values (dropna (map (\<lambda>(h, si_h, v, si_v). (h, si_h)) raw));
          vel_df = sort_values (dropna (map (\<lambda>(h, si_h, v, si_v). (v, si_v)) raw))
      in (map fst depth_df, map snd depth_df, map fst vel_df, map snd vel_df))"

section \<open>Rasters\<close>

text \<open>
  What the program uses of a rasterio dataset: its width, height and affine transform
  (the six coefficients \<open>a, b, c, d, e, f\<close>; \<open>transform[0]\<close> is \<open>a\<close>, the pixel width,
  and \<open>transform[4]\<close> is \<open>e\<close>, the negative pixel height), its nodata value if it has
  one, and the samples of band 1 in row-major order.

  A masked array is its shape, its data and its mask (\<open>True\<close>: the cell is missing).
  A plain array is a masked array whose mask is \<open>False\<close> everywhere.
\<close>

type_synonym affine = "real \<times> real \<times> real \<times> real \<times> real \<times> real"

fun transform0 :: "affine \<Rightarrow> real" where
  "transform0 (a, b, c, d, e, f) = a"

fun transform4 :: "affine \<Rightarrow> real" where
  "transform4 (a, b, c, d, e, f) = e"

record dataset =
  width :: nat
  height :: nat
  transform :: affine
  nodata :: "fval option"
  band :: "fval list"

record marray =
  ma_shape :: "nat \<times> nat"
  ma_data :: "fval list"
  ma_mask :: "bool list"

text \<open>
  \<open>src.read(1, masked=True)\<close>: the band with the dataset's nodata cells masked (a NaN
  nodata value masks the NaN cells).
\<close>

definition is_nodata :: "fval option \<Rightarrow> fval \<Rightarrow> bool" where
  "is_nodata nd v = (nd = Some v)"

definition read_masked :: "dataset \<Rightarrow> marray" where
  "read_masked src =
     \<lparr>ma_shape = (height src, width src),
      ma_data = band src,
      ma_mask = map (is_nodata (nodata src)) (band src)\<rparr>"

text \<open>
  \<open>src.read(out_shape=(1, h, w), resampling=Resampling.bilinear)[0]\<close>: a plain array of
  shape \<open>(h, w)\<close>, not masked. The resampling is GDAL's and is a parameter \<open>rs\<close> of the
  model, giving the value of each cell of the output; when \<open>(h, w)\<close> is the dataset's
  own shape nothing is resampled and the band is returned as stored.
\<close>

type_synonym resampler = "dataset \<Rightarrow> nat \<times> nat \<Rightarrow> nat \<times> nat \<Rightarrow> fval"

definition read_out_shape :: "resampler \<Rightarrow> dataset \<Rightarrow> nat \<times> nat \<Rightarrow> marray" where
  "read_out_shape rs src hw =
     (let cells = (if hw = (height src, width src) then band src
                   else map (\<lambda>k. rs src hw (k div snd hw, k mod snd hw)) [0..<fst hw * snd hw])
      in \<lparr>ma_shape = hw, ma_data = cells, ma_mask = map (\<lambda>_. False) cells\<rparr>)"

definition masked_invalid :: "marray \<Rightarrow> marray" where
  "masked_invalid m =
     m\<lparr>ma_mask := map (\<lambda>(d, k). k \<or> \<not> isfinite d) (zip (ma_data m) (ma_mask m))\<rparr>"

definition filled :: "marray \<Rightarrow> fval \<Rightarrow> fval list" where
  "filled m fill_value = map (\<lambda>(d, k). if k then fill_value else d) (zip (ma_data m) (ma_mask m))"

section \<open>\<open>calculate_habitat\<close>\<close>

text \<open>Lines 100 to 113: the velocity on the grid of the depth raster.\<close>

definition vel_data :: "resampler \<Rightarrow> dataset \<Rightarrow> dataset \<Rightarrow> marray" where
  "vel_data rs dep_src vel_src =
     (if width vel_src \<noteq> width dep_src
         \<or> height vel_src \<noteq> height dep_src
         \<or> transform vel_src \<noteq> transform dep_src
      then read_out_shape rs vel_src (height dep_src, width dep_src)
      else read_masked vel_src)"

definition velocity :: "resampler \<Rightarrow> dataset \<Rightarrow> dataset \<Rightarrow> marray" where
  "velocity rs dep_src vel_src = masked_invalid (vel_data rs dep_src vel_src)"

text \<open>Line 120: \<open>chsi = np.sqrt(si_h * si_v)\<close>, cell by cell.\<close>

definition chsi_of :: "fval list \<Rightarrow> fval list \<Rightarrow> fval list" where
  "chsi_of si_h si_v = map (\<lambda>(p, q). np_sqrt (fmul p q)) (zip si_h si_v)"

text \<open>Lines 137 to 142: the statistics.\<close>

definition usable :: "fval list \<Rightarrow> fval \<Rightarrow> bool list" where
  "usable chsi threshold = map (\<lambda>c. fgt c threshold) chsi"

definition count_nonzero :: "bool list \<Rightarrow> nat" where
  "count_nonzero bs = length (filter (\<lambda>b. b) bs)"

record habitat =
  r_si_h :: "fval list"
  r_si_v :: "fval list"
  r_chsi :: "fval list"
  r_n_pixels :: nat
  r_pixel_area_m2 :: real
  r_total_area_m2 :: real

definition summarize :: "fval list \<Rightarrow> fval list \<Rightarrow> fval list \<Rightarrow> fval \<Rightarrow> affine \<Rightarrow> habitat" where
  "summarize si_h si_v chsi threshold tr =
     (let n_pixels = count_nonzero (usable chsi threshold);
          pixel_area_m2 = \<bar>transform0 tr * transform4 tr\<bar>
      in \<lparr>r_si_h = si_h, r_si_v = si_v, r_chsi = chsi,
          r_n_pixels = n_pixels,
          r_pixel_area_m2 = pixel_area_m2,
          r_total_area_m2 = real n_pixels * pixel_area_m2\<rparr>)"

text \<open>
  The run, from the parsed curve table and the two opened datasets to the three rasters
  and the statistics. Creating the directory, writing the files and printing are left
  out. Both SI rasters have the shape of the depth raster, so the product of line 120
  is cell-wise.
\<close>

definition calculate_habitat ::
  "resampler \<Rightarrow> dataset \<Rightarrow> dataset \<Rightarrow> csv_row list \<Rightarrow> fval \<Rightarrow> error + habitat" where
  "calculate_habitat rs dep_src vel_src raw threshold =
     (case read_suitability_csv raw of
        (h_pts, si_h_pts, v_pts, si_v_pts) \<Rightarrow>
          (case piecewise_linear (filled (read_masked dep_src) NaN) h_pts si_h_pts of
             Inl e \<Rightarrow> Inl e
           | Inr si_h \<Rightarrow>
               (case piecewise_linear (filled (velocity rs dep_src vel_src) NaN) v_pts si_v_pts of
                  Inl e \<Rightarrow> Inl e
                | Inr si_v \<Rightarrow>
                    Inr (summarize si_h si_v (chsi_of si_h si_v) threshold (transform dep_src)))))"

section \<open>Rounding to float64\<close>

text \<open>
  The definitions above compute with exact reals. The program computes in IEEE doubles:
  every arithmetic operation returns the double nearest to the exact result, ties going
  to the even significand. \<open>f64\<close> is that rounding for results in the normal range (no
  overflow to infinity, no subnormals): \<open>binade\<close> searches the exponent \<open>e\<close> with
  \<open>2^e \<le> |x| < 2^(e+1)\<close>, by at most as many steps as doubles have exponents, and the
  result is the multiple of \<open>2^(e-52)\<close> nearest to \<open>x\<close>.

  \<open>interp_in_range_rounded\<close> is the in-range branch of \<open>np.interp\<close> with every
  operation of \<open>slope = (fp[j+1] - fp[j]) / (xp[j+1] - xp[j])\<close> and of
  \<open>slope * (x - xp[j]) + fp[j]\<close> rounded by \<open>rnd\<close>: with the identity it is
  \<open>interp_in_range\<close>, with \<open>f64\<close> it is what the program computes.
\<close>

fun binade :: "nat \<Rightarrow> real \<Rightarrow> int" where
  "binade 0 x = 0"
| "binade (Suc n) x =
     (if 2 \<le> x then binade n (x / 2) + 1
      else if x < 1 then binade n (2 * x) - 1
      else 0)"

definition rne :: "real \<Rightarrow> int" where
  "rne y =
     (let f = \<lfloor>y\<rfloor> in
      if y - of_int f < 1 / 2 then f
      else if 1 / 2 < y - of_int f then f + 1
      else if even f then f else f + 1)"

definition f64 :: "real \<Rightarrow> real" where
  "f64 x =
     (if x = 0 then 0
      else let u = 2 powi (binade 1100 \<bar>x\<bar> - 52) in of_int (rne (x / u)) * u)"

definition interp_in_range_rounded :: "(real \<Rightarrow> real) \<Rightarrow> real list \<Rightarrow> real list \<Rightarrow> real \<Rightarrow> real" where
  "interp_in_range_rounded rnd xp fp x =
     (let j = search_index xp x in
      if j = length xp - 1 then fp ! j
      else if xp ! j = x then fp ! j
      else
        let slope = rnd (rnd (fp ! (j + 1) - fp ! j) / rnd (xp ! (j + 1) - xp ! j))
        in rnd (rnd (slope * rnd (x - xp ! j)) + fp ! j))"


text \<open>
  The doubles nearest to 0.2 and to 0.7, and the double just below the first:
  0.19999999999999998.
\<close>

definition d_0_2 :: real where
  "d_0_2 = 7205759403792794 / 36028797018963968"

definition d_0_7 :: real where
  "d_0_7 = 3152519739159347 / 4503599627370496"

definition d_below_0_2 :: real where
  "d_below_0_2 = 7205759403792793 / 36028797018963968"

section \<open>Example inputs\<close>

text \<open>
  A curve table with two complete rows per variable and one incomplete row (SI rises
  with depth from 0 at 0 m to 1 at 1 m, and falls with velocity from 1 at 0 m/s to 0
  at 1 m/s), rasters of one row and two columns with 10 m pixels and the nodata value
  -9999, and a resampler that is never consulted on them.
\<close>

definition example_raw :: "csv_row list" where
  "example_raw =
     [(Some 1, Some 1, Some 1, Some 0), (Some 0, Some 0, Some 0, Some 1), (None, Some 1, Some 2, None)]"

definition example_rs :: resampler where
  "example_rs src hw cell = NaN"

definition example_dep :: dataset where
  "example_dep = \<lparr>width = 2, height = 1, transform = (10, 0, 0, 0, -10, 0),
                  nodata = Some (Fin (-9999)), band = [Fin 1, Fin (-9999)]\<rparr>"

definition example_dep_neg :: dataset where
  "example_dep_neg = \<lparr>width = 2, height = 1, transform = (10, 0, 0, 0, -10, 0),
                      nodata = Some (Fin (-9999)), band = [Fin (-1), Fin 1]\<rparr>"

definition example_dep_full :: dataset where
  "example_dep_full = \<lparr>width = 2, height = 1, transform = (10, 0, 0, 0, -10, 0),
                       nodata = Some (Fin (-9999)), band = [Fin 1, Fin 1]\<rparr>"

definition example_vel :: dataset where
  "example_vel = \<lparr>width = 2, height = 1, transform = (10, 0, 0, 0, -10, 0),
                  nodata = Some (Fin (-9999)), band = [Fin 0, Fin 0]\<rparr>"

text \<open>
  A velocity raster of the same size whose grid is shifted by half a pixel, and whose
  second cell is missing.
\<close>

definition example_vel_shifted :: dataset where
  "example_vel_shifted = \<lparr>width = 2, height = 1, transform = (10, 0, 5, 0, -10, 0),
                          nodata = Some (Fin (-9999)), band = [Fin 0, Fin (-9999)]\<rparr>"

text \<open>A curve table that leaves one break point per variable, and a raster of one cell.\<close>

definition example_raw_one :: "csv_row list" where
  "example_raw_one = [(Some 1, Some 1, Some 1, Some 1), (Some 2, None, None, Some 0)]"

definition example_cell :: dataset where
  "example_cell = \<lparr>width = 1, height = 1, transform = (10, 0, 0, 0, -10, 0),
                   nodata = None, band = [Fin 1]\<rparr>"

section \<open>Cell-wise behaviour of \<open>piecewise_linear\<close>\<close>

lemma assign_where_length:
  "length si = length arr \<Longrightarrow> length (assign_where (map P arr) (map f arr) si) = length arr"
  by (simp add: assign_where_def)

lemma assign_where_nth:
  "length si = length arr \<Longrightarrow> i < length arr \<Longrightarrow>
   assign_where (map P arr) (map f arr) si ! i = (if P (arr ! i) then f (arr ! i) else si ! i)"
  by (simp add: assign_where_def)

lemma np_any_map: "np_any (map P arr) = (\<exists>i<length arr. P (arr ! i))"
proof -
  have "np_any (map P arr) = (\<exists>x\<in>set arr. P x)" by (auto simp: np_any_def)
  also have "\<dots> = (\<exists>i<length arr. P (arr ! i))" by (metis in_set_conv_nth)
  finally show ?thesis .
qed

lemma np_interp_Inr:
  assumes "np_interp arr xp fp = Inr si"
  shows "xp \<noteq> []" "length fp = length xp" "si = map (interp_cell xp fp) arr"
  using assms by (auto simp: np_interp_def split: if_splits)

lemma extrapolate_left_Inr:
  assumes "extrapolate_left arr x_pts y_pts si = Inr si'" "length si = length arr"
  shows "length si' = length arr"
    and "i < length arr \<Longrightarrow> si' ! i =
      (if flt (arr ! i) (Fin (x_pts ! 0))
       then fadd (Fin (y_pts ! 0))
              (fmul (np_div (y_pts ! 1 - y_pts ! 0) (x_pts ! 1 - x_pts ! 0)) (fsub (arr ! i) (Fin (x_pts ! 0))))
       else si ! i)"
proof -
  show "length si' = length arr"
    using assms
    by (auto simp: extrapolate_left_def Let_def assign_where_length split: if_splits)
  assume i: "i < length arr"
  show "si' ! i =
      (if flt (arr ! i) (Fin (x_pts ! 0))
       then fadd (Fin (y_pts ! 0))
              (fmul (np_div (y_pts ! 1 - y_pts ! 0) (x_pts ! 1 - x_pts ! 0)) (fsub (arr ! i) (Fin (x_pts ! 0))))
       else si ! i)"
  proof (cases "np_any (map (\<lambda>v. flt v (Fin (x_pts ! 0))) arr)")
    case True
    hence "si' = assign_where (map (\<lambda>v. flt v (Fin (x_pts ! 0))) arr)
                 (map (\<lambda>v. fadd (Fin (y_pts ! 0))
                    (fmul (np_div (y_pts ! 1 - y_pts ! 0) (x_pts ! 1 - x_pts ! 0)) (fsub v (Fin (x_pts ! 0))))) arr)
                 si"
      using assms(1) by (simp add: extrapolate_left_def Let_def split: if_splits)
    then show ?thesis
      using assms(2) i by (simp only: assign_where_nth)
  next
    case False
    hence "\<not> flt (arr ! i) (Fin (x_pts ! 0))" using i by (simp add: np_any_map)
    moreover have "si' = si" using assms False
      by (simp add: extrapolate_left_def Let_def split: if_splits)
    ultimately show ?thesis by simp
  qed
qed

lemma extrapolate_right_Inr:
  assumes "extrapolate_right arr x_pts y_pts si = Inr si'" "length si = length arr"
  shows "length si' = length arr"
    and "i < length arr \<Longrightarrow> si' ! i =
      (if fgt (arr ! i) (Fin (last x_pts))
       then fadd (Fin (last y_pts))
              (fmul (np_div (last y_pts - y_pts ! (length y_pts - 2))
                            (last x_pts - x_pts ! (length x_pts - 2)))
                    (fsub (arr ! i) (Fin (last x_pts))))
       else si ! i)"
proof -
  show "length si' = length arr"
    using assms
    by (auto simp: extrapolate_right_def Let_def assign_where_length split: if_splits)
  assume i: "i < length arr"
  show "si' ! i =
      (if fgt (arr ! i) (Fin (last x_pts))
       then fadd (Fin (last y_pts))
              (fmul (np_div (last y_pts - y_pts ! (length y_pts - 2))
                            (last x_pts - x_pts ! (length x_pts - 2)))
                    (fsub (arr ! i) (Fin (last x_pts))))
       else si ! i)"
  proof (cases "np_any (map (\<lambda>v. fgt v (Fin (last x_pts))) arr)")
    case True
    hence "si' = assign_where (map (\<lambda>v. fgt v (Fin (last x_pts))) arr)
                 (map (\<lambda>v. fadd (Fin (last y_pts))
                    (fmul (np_div (last y_pts - y_pts ! (length y_pts - 2))
                                  (last x_pts - x_pts ! (length x_pts - 2)))
                          (fsub v (Fin (last x_pts))))) arr)
                 si"
      using assms(1) by (simp add: extrapolate_right_def Let_def split: if_splits)
    then show ?thesis
      using assms(2) i by (simp only: assign_where_nth)
  next
    case False
    hence "\<not> fgt (arr ! i) (Fin (last x_pts))" using i by (simp add: np_any_map)
    moreover have "si' = si" using assms False
      by (simp add: extrapolate_right_def Let_def split: if_splits)
    ultimately show ?thesis by simp
  qed
qed

lemma extrapolate_left_returns:
  "2 \<le> length x_pts \<Longrightarrow> length y_pts = length x_pts \<Longrightarrow> \<exists>si'. extrapolate_left arr x_pts y_pts si = Inr si'"
  by (auto simp: extrapolate_left_def Let_def)

lemma extrapolate_right_returns:
  "2 \<le> length x_pts \<Longrightarrow> length y_pts = length x_pts \<Longrightarrow> \<exists>si'. extrapolate_right arr x_pts y_pts si = Inr si'"
  by (auto simp: extrapolate_right_def Let_def)

lemma piecewise_linear_returns:
  assumes "2 \<le> length x_pts" "length y_pts = length x_pts"
  shows "\<exists>si. piecewise_linear arr x_pts y_pts = Inr si"
proof -
  have "x_pts \<noteq> []" using assms by auto
  hence 1: "np_interp arr x_pts y_pts = Inr (map (interp_cell x_pts y_pts) arr)"
    using assms by (simp add: np_interp_def)
  obtain s1 where 2: "extrapolate_left arr x_pts y_pts (map (interp_cell x_pts y_pts) arr) = Inr s1"
    using extrapolate_left_returns[OF assms] by blast
  obtain s2 where 3: "extrapolate_right arr x_pts y_pts s1 = Inr s2"
    using extrapolate_right_returns[OF assms] by blast
  show ?thesis by (simp add: piecewise_linear_def 1 2 3)
qed

lemma piecewise_linear_cell:
  assumes "piecewise_linear arr x_pts y_pts = Inr si"
  shows "length si = length arr"
    and "i < length arr \<Longrightarrow> si ! i =
      (if fgt (arr ! i) (Fin (last x_pts))
       then fadd (Fin (last y_pts))
              (fmul (np_div (last y_pts - y_pts ! (length y_pts - 2))
                            (last x_pts - x_pts ! (length x_pts - 2)))
                    (fsub (arr ! i) (Fin (last x_pts))))
       else if flt (arr ! i) (Fin (x_pts ! 0))
       then fadd (Fin (y_pts ! 0))
              (fmul (np_div (y_pts ! 1 - y_pts ! 0) (x_pts ! 1 - x_pts ! 0)) (fsub (arr ! i) (Fin (x_pts ! 0))))
       else interp_cell x_pts y_pts (arr ! i))"
proof -
  obtain s0 s1 where 0: "np_interp arr x_pts y_pts = Inr s0"
    and 1: "extrapolate_left arr x_pts y_pts s0 = Inr s1"
    and 2: "extrapolate_right arr x_pts y_pts s1 = Inr si"
    using assms by (auto simp: piecewise_linear_def split: sum.splits)
  have s0: "s0 = map (interp_cell x_pts y_pts) arr" using 0 by (rule np_interp_Inr)
  hence l0: "length s0 = length arr" by simp
  have l1: "length s1 = length arr" using 1 l0 by (rule extrapolate_left_Inr)
  show "length si = length arr" using 2 l1 by (rule extrapolate_right_Inr)
  assume i: "i < length arr"
  show "si ! i =
      (if fgt (arr ! i) (Fin (last x_pts))
       then fadd (Fin (last y_pts))
              (fmul (np_div (last y_pts - y_pts ! (length y_pts - 2))
                            (last x_pts - x_pts ! (length x_pts - 2)))
                    (fsub (arr ! i) (Fin (last x_pts))))
       else if flt (arr ! i) (Fin (x_pts ! 0))
       then fadd (Fin (y_pts ! 0))
              (fmul (np_div (y_pts ! 1 - y_pts ! 0) (x_pts ! 1 - x_pts ! 0)) (fsub (arr ! i) (Fin (x_pts ! 0))))
       else interp_cell x_pts y_pts (arr ! i))"
    using extrapolate_right_Inr(2)[OF 2 l1 i] extrapolate_left_Inr(2)[OF 1 l0 i] i
    by (simp add: s0)
qed

subsection \<open>The index found by the search\<close>

lemma search_index_lt: "xp \<noteq> [] \<Longrightarrow> search_index xp x < length xp"
proof -
  assume "xp \<noteq> []"
  have "length (takeWhile (\<lambda>a. a \<le> x) (tl xp)) \<le> length (tl xp)" by (rule length_takeWhile_le)
  thus ?thesis using \<open>xp \<noteq> []\<close> by (cases xp) (simp_all add: search_index_def)
qed

lemma search_index_le:
  assumes "xp \<noteq> []" "xp ! 0 \<le> x"
  shows "xp ! search_index xp x \<le> x"
proof (cases "search_index xp x")
  case 0 thus ?thesis using assms by simp
next
  case (Suc k)
  let ?t = "takeWhile (\<lambda>a. a \<le> x) (tl xp)"
  have k: "k < length ?t" using Suc by (simp add: search_index_def)
  hence "?t ! k \<in> set ?t" by simp
  hence "?t ! k \<le> x" using set_takeWhileD by fastforce
  moreover have "?t ! k = tl xp ! k" using k by (rule takeWhile_nth)
  moreover have "tl xp ! k = xp ! Suc k" using assms(1) by (cases xp) auto
  ultimately show ?thesis using Suc by simp
qed

lemma search_index_gt:
  assumes "xp \<noteq> []" "search_index xp x \<noteq> length xp - 1"
  shows "x < xp ! (search_index xp x + 1)"
proof -
  let ?t = "takeWhile (\<lambda>a. a \<le> x) (tl xp)"
  have "length ?t \<le> length (tl xp)" by (rule length_takeWhile_le)
  hence lt: "length ?t < length (tl xp)"
    using assms by (simp add: search_index_def)
  hence "\<not> (tl xp ! length ?t \<le> x)" by (rule nth_length_takeWhile)
  moreover have "tl xp ! length ?t = xp ! (length ?t + 1)"
    using assms(1) by (cases xp) auto
  ultimately show ?thesis by (simp add: search_index_def)
qed

section \<open>The worked example\<close>

lemma example_interp:
  "np_interp [Fin (-1), Fin 0, Fin (1/2), Fin 1, Fin (3/2), Fin 3] [0, 1, 2] [0, 1/2, 1]
   = Inr [Fin 0, Fin 0, Fin (1/4), Fin (1/2), Fin (3/4), Fin 1]"
  by (simp add: np_interp_def interp_cell_def interp_in_range_def search_index_def)

lemma example_left:
  "extrapolate_left [Fin (-1), Fin 0, Fin (1/2), Fin 1, Fin (3/2), Fin 3] [0, 1, 2] [0, 1/2, 1]
     [Fin 0, Fin 0, Fin (1/4), Fin (1/2), Fin (3/4), Fin 1]
   = Inr [Fin (-1/2), Fin 0, Fin (1/4), Fin (1/2), Fin (3/4), Fin 1]"
  by (simp add: extrapolate_left_def np_any_def assign_where_def np_div_def fsub_def)

lemma example_right:
  "extrapolate_right [Fin (-1), Fin 0, Fin (1/2), Fin 1, Fin (3/2), Fin 3] [0, 1, 2] [0, 1/2, 1]
     [Fin (-1/2), Fin 0, Fin (1/4), Fin (1/2), Fin (3/4), Fin 1]
   = Inr [Fin (-1/2), Fin 0, Fin (1/4), Fin (1/2), Fin (3/4), Fin (3/2)]"
  by (simp add: extrapolate_right_def np_any_def assign_where_def np_div_def fsub_def fgt_def)

text \<open>
  C3. No clamping to \<open>[0, 1]\<close> is applied: for the curve \<open>x = [0, 1, 2]\<close>,
  \<open>y = [0, 0.5, 1]\<close> and the input \<open>[-1, 0, 0.5, 1, 1.5, 3]\<close> the output is exactly
  \<open>[-0.5, 0, 0.25, 0.5, 0.75, 1.5]\<close>; its first value lies below 0 and its last above 1,
  and both are returned as they are.
\<close>

theorem piecewise_linear_example:
  "piecewise_linear [Fin (-1), Fin 0, Fin (1/2), Fin 1, Fin (3/2), Fin 3] [0, 1, 2] [0, 1/2, 1]
     = Inr [Fin (-1/2), Fin 0, Fin (1/4), Fin (1/2), Fin (3/4), Fin (3/2)]
   \<and> flt (Fin (-1/2)) (Fin 0) \<and> fgt (Fin (3/2)) (Fin 1)"
  unfolding piecewise_linear_def
  by (simp only: example_interp example_left example_right sum.case) (simp add: fgt_def)

subsection \<open>Inside the domain of the curve\<close>

lemma strict_sorted_nth_less:
  "sorted_wrt (<) (xs :: real list) \<Longrightarrow> i < j \<Longrightarrow> j < length xs \<Longrightarrow> xs ! i < xs ! j"
  by (simp add: sorted_wrt_iff_nth_less)

lemma strict_sorted_nth_eq:
  assumes "sorted_wrt (<) (xs :: real list)" "i < length xs" "j < length xs" "xs ! i = xs ! j"
  shows "i = j"
proof (rule ccontr)
  assume "i \<noteq> j"
  then consider "i < j" | "j < i" by linarith
  then show False
    using strict_sorted_nth_less[OF assms(1)] assms(2,3,4) by cases fastforce+
qed

lemma in_range_segment:
  assumes srt: "sorted_wrt (<) xp" and n: "2 \<le> length xp"
    and lo: "xp ! 0 \<le> x" and hi: "x \<le> last xp"
  shows "\<exists>j. j + 1 < length xp \<and> xp ! j \<le> x \<and> x \<le> xp ! (j + 1) \<and> xp ! j < xp ! (j + 1)
           \<and> interp_in_range xp fp x
               = fp ! j + (fp ! (j + 1) - fp ! j) / (xp ! (j + 1) - xp ! j) * (x - xp ! j)"
proof -
  have ne: "xp \<noteq> []" using n by auto
  define j where "j = search_index xp x"
  have jlt: "j < length xp" unfolding j_def using ne by (rule search_index_lt)
  have jle: "xp ! j \<le> x" unfolding j_def using ne lo by (rule search_index_le)
  have lastx: "last xp = xp ! (length xp - 1)" using ne by (rule last_conv_nth)
  show ?thesis
  proof (cases "j = length xp - 1")
    case True
    let ?k = "length xp - 2"
    have k: "?k + 1 = length xp - 1" "?k + 1 < length xp" "?k < ?k + 1" using n by auto
    have xeq: "x = xp ! (?k + 1)" using jle hi True lastx k(1) by simp
    have less: "xp ! ?k < xp ! (?k + 1)" using srt k(3) k(2) by (rule strict_sorted_nth_less)
    have "interp_in_range xp fp x = fp ! (?k + 1)"
      using True k(1) by (simp add: interp_in_range_def j_def[symmetric])
    also have "\<dots> = fp ! ?k + (fp ! (?k + 1) - fp ! ?k) / (xp ! (?k + 1) - xp ! ?k) * (x - xp ! ?k)"
      using less xeq by simp
    finally show ?thesis using k(2) less xeq by (intro exI[of _ ?k]) simp
  next
    case False
    hence j1: "j + 1 < length xp" using jlt by simp
    have gt: "x < xp ! (j + 1)" using False unfolding j_def by (rule search_index_gt[OF ne])
    have less: "xp ! j < xp ! (j + 1)" using jle gt by simp
    have "interp_in_range xp fp x
            = fp ! j + (fp ! (j + 1) - fp ! j) / (xp ! (j + 1) - xp ! j) * (x - xp ! j)"
      using False by (simp add: interp_in_range_def j_def[symmetric])
    thus ?thesis using j1 jle gt less by (intro exI[of _ j]) simp
  qed
qed

lemma in_range_break_point:
  assumes srt: "sorted_wrt (<) xp" and k: "k < length xp"
  shows "interp_in_range xp fp (xp ! k) = fp ! k"
proof -
  have ne: "xp \<noteq> []" using k by auto
  define j where "j = search_index xp (xp ! k)"
  have jlt: "j < length xp" unfolding j_def using ne by (rule search_index_lt)
  have "xp ! 0 \<le> xp ! k"
    using strict_sorted_nth_less[OF srt, of 0 k] k by (cases "k = 0") auto
  hence jle: "xp ! j \<le> xp ! k" unfolding j_def using ne search_index_le by blast
  have kj: "k \<le> j"
  proof (rule ccontr)
    assume "\<not> k \<le> j"
    hence "j + 1 < length xp" "j + 1 \<le> k" using k by auto
    hence "j \<noteq> length xp - 1" by simp
    hence "xp ! k < xp ! (j + 1)" unfolding j_def by (rule search_index_gt[OF ne])
    moreover have "xp ! (j + 1) \<le> xp ! k"
      using strict_sorted_nth_less[OF srt, of "j + 1" k] k \<open>j + 1 \<le> k\<close>
      by (cases "j + 1 = k") auto
    ultimately show False by simp
  qed
  have "j = k"
  proof (rule ccontr)
    assume "j \<noteq> k"
    hence "k < j" using kj by simp
    hence "xp ! k < xp ! j" using srt jlt by (simp add: strict_sorted_nth_less)
    thus False using jle by simp
  qed
  thus ?thesis by (simp add: interp_in_range_def j_def[symmetric])
qed

lemma first_le_last:
  assumes "sorted_wrt (<) (xp :: real list)" "xp \<noteq> []"
  shows "xp ! 0 \<le> last xp"
proof (cases "length xp = 1")
  case True thus ?thesis using assms(2) by (simp add: last_conv_nth)
next
  case False
  hence "0 < length xp - 1" "length xp - 1 < length xp" using assms(2) by (auto simp: Suc_lessI)
  hence "xp ! 0 < xp ! (length xp - 1)" using assms(1) by (simp add: strict_sorted_nth_less)
  thus ?thesis using assms(2) by (simp add: last_conv_nth)
qed

lemma np_div_nonzero: "q \<noteq> 0 \<Longrightarrow> np_div p q = Fin (p / q)"
  by (simp add: np_div_def)


text \<open>
  C1. For a curve with strictly ascending break points (at least two) and a cell whose
  value \<open>v\<close> is not missing and lies in the curve's domain, \<open>piecewise_linear\<close> returns
  the value on the straight line between two break points that bracket \<open>v\<close>; when \<open>v\<close> is
  the x-value of a break point it returns that break point's y-value.
\<close>

theorem piecewise_linear_in_range:
  assumes "sorted_wrt (<) x_pts" and "length y_pts = length x_pts" and "2 \<le> length x_pts"
    and "i < length arr" and "arr ! i = Fin v"
    and "x_pts ! 0 \<le> v" and "v \<le> last x_pts"
  shows "\<exists>si. piecewise_linear arr x_pts y_pts = Inr si
           \<and> (\<exists>j. j + 1 < length x_pts \<and> x_pts ! j \<le> v \<and> v \<le> x_pts ! (j + 1)
                 \<and> si ! i = Fin (y_pts ! j
                      + (y_pts ! (j + 1) - y_pts ! j) / (x_pts ! (j + 1) - x_pts ! j) * (v - x_pts ! j)))
           \<and> (\<forall>k<length x_pts. v = x_pts ! k \<longrightarrow> si ! i = Fin (y_pts ! k))"
proof -
  obtain si where si: "piecewise_linear arr x_pts y_pts = Inr si"
    using piecewise_linear_returns[OF assms(3,2)] by blast
  have cell: "si ! i = Fin (interp_in_range x_pts y_pts v)"
    using piecewise_linear_cell(2)[OF si assms(4)] assms(3,5,6,7)
    by (simp add: fgt_def interp_cell_def)
  obtain j where j: "j + 1 < length x_pts" "x_pts ! j \<le> v" "v \<le> x_pts ! (j + 1)"
    "interp_in_range x_pts y_pts v
       = y_pts ! j + (y_pts ! (j + 1) - y_pts ! j) / (x_pts ! (j + 1) - x_pts ! j) * (v - x_pts ! j)"
    using in_range_segment[OF assms(1,3,6,7), of y_pts] by blast
  have "\<forall>k<length x_pts. v = x_pts ! k \<longrightarrow> si ! i = Fin (y_pts ! k)"
    using cell in_range_break_point[OF assms(1)] by simp
  thus ?thesis using si cell j by auto
qed

theorem piecewise_linear_in_range_witness:
  "sorted_wrt (<) [0, 1, 2::real] \<and> [0, 1, 2::real] ! 0 \<le> 1/2 \<and> 1/2 \<le> last [0, 1, 2::real]
   \<and> (\<exists>si. piecewise_linear [Fin (1/2), Fin 1] [0, 1, 2] [0, 1/2, 1] = Inr si
          \<and> si ! 0 = Fin (1/4) \<and> si ! 1 = Fin (1/2))"
proof -
  have a: "sorted_wrt (<) [0, 1, 2::real]" by simp
  have b: "length [0, 1/2, 1::real] = length [0, 1, 2::real]" by simp
  have c: "2 \<le> length [0, 1, 2::real]" by simp
  have d: "0 < length [Fin (1/2), Fin 1]" "1 < length [Fin (1/2), Fin 1]" by simp_all
  have e: "[Fin (1/2), Fin 1] ! 0 = Fin (1/2)" "[Fin (1/2), Fin 1] ! 1 = Fin 1" by simp_all
  have f: "[0, 1, 2::real] ! 0 \<le> 1/2" "1/2 \<le> last [0, 1, 2::real]"
          "[0, 1, 2::real] ! 0 \<le> 1" "1 \<le> last [0, 1, 2::real]" by simp_all
  obtain s0 j where s0: "piecewise_linear [Fin (1/2), Fin 1] [0, 1, 2] [0, 1/2, 1] = Inr s0"
     and j: "j + 1 < length [0, 1, 2::real]" "[0, 1, 2::real] ! j \<le> 1/2"
     and v: "s0 ! 0 = Fin ([0, 1/2, 1] ! j
               + ([0, 1/2, 1] ! (j + 1) - [0, 1/2, 1] ! j) / ([0, 1, 2] ! (j + 1) - [0, 1, 2] ! j)
                 * (1/2 - [0, 1, 2] ! j))"
    using piecewise_linear_in_range[OF a b c d(1) e(1) f(1,2)] by blast
  have "j = 0 \<or> j = 1" using j(1) by auto
  hence "j = 0" using j(2) by auto
  hence v0: "s0 ! 0 = Fin (1/4)" using v by simp
  obtain s1 where s1: "piecewise_linear [Fin (1/2), Fin 1] [0, 1, 2] [0, 1/2, 1] = Inr s1"
     "\<forall>k<length [0, 1, 2::real]. 1 = [0, 1, 2::real] ! k \<longrightarrow> s1 ! 1 = Fin ([0, 1/2, 1] ! k)"
    using piecewise_linear_in_range[OF a b c d(2) e(2) f(3,4)] by blast
  have "s1 = s0" using s0 s1(1) by simp
  moreover have "s1 ! 1 = Fin (1/2)" using s1(2)[rule_format, of 1] by simp
  ultimately show ?thesis using s0 v0 by simp
qed

subsection \<open>Outside the domain of the curve\<close>

lemma flt_not_fgt: "flt u (Fin p) \<Longrightarrow> p \<le> q \<Longrightarrow> \<not> fgt u (Fin q)"
  by (cases u) (simp_all add: fgt_def)

text \<open>
  C2. For a curve with strictly ascending break points (at least two), a cell below the
  first break point gets \<open>y0 + slope_left * (v - x0)\<close>, with the slope of the segment
  between break points 0 and 1, and a cell above the last break point gets
  \<open>y_last + slope_right * (v - x_last)\<close>, with the slope of the segment between the
  last two break points. The first two conjuncts say so for every cell value, infinite
  ones included; the last one reads them on a finite value \<open>v\<close>.
\<close>

theorem piecewise_linear_extrapolates:
  assumes "sorted_wrt (<) x_pts" and "length y_pts = length x_pts" and "2 \<le> length x_pts"
    and "i < length arr"
  shows "\<exists>si. piecewise_linear arr x_pts y_pts = Inr si
     \<and> (flt (arr ! i) (Fin (x_pts ! 0)) \<longrightarrow>
          si ! i = fadd (Fin (y_pts ! 0))
                     (fmul (Fin ((y_pts ! 1 - y_pts ! 0) / (x_pts ! 1 - x_pts ! 0)))
                           (fsub (arr ! i) (Fin (x_pts ! 0)))))
     \<and> (fgt (arr ! i) (Fin (last x_pts)) \<longrightarrow>
          si ! i = fadd (Fin (last y_pts))
                     (fmul (Fin ((last y_pts - y_pts ! (length y_pts - 2))
                                 / (last x_pts - x_pts ! (length x_pts - 2))))
                           (fsub (arr ! i) (Fin (last x_pts)))))
     \<and> (\<forall>v. arr ! i = Fin v \<longrightarrow>
          (v < x_pts ! 0 \<longrightarrow>
             si ! i = Fin (y_pts ! 0
                        + (y_pts ! 1 - y_pts ! 0) / (x_pts ! 1 - x_pts ! 0) * (v - x_pts ! 0)))
        \<and> (last x_pts < v \<longrightarrow>
             si ! i = Fin (last y_pts
                        + (last y_pts - y_pts ! (length y_pts - 2))
                          / (last x_pts - x_pts ! (length x_pts - 2)) * (v - last x_pts))))"
proof -
  obtain si where si: "piecewise_linear arr x_pts y_pts = Inr si"
    using piecewise_linear_returns[OF assms(3,2)] by blast
  have ne: "x_pts \<noteq> []" using assms(3) by auto
  have fl: "x_pts ! 0 \<le> last x_pts" using assms(1) ne by (rule first_le_last)
  have "x_pts ! 0 < x_pts ! 1" using assms(1,3) by (simp add: strict_sorted_nth_less)
  hence dl: "np_div (y_pts ! 1 - y_pts ! 0) (x_pts ! 1 - x_pts ! 0)
             = Fin ((y_pts ! 1 - y_pts ! 0) / (x_pts ! 1 - x_pts ! 0))"
    by (simp add: np_div_nonzero)
  have "x_pts ! (length x_pts - 2) < x_pts ! (length x_pts - 1)"
    using assms(1,3) by (simp add: strict_sorted_nth_less)
  hence "x_pts ! (length x_pts - 2) < last x_pts" using ne by (simp add: last_conv_nth)
  hence dr: "np_div (last y_pts - y_pts ! (length y_pts - 2)) (last x_pts - x_pts ! (length x_pts - 2))
             = Fin ((last y_pts - y_pts ! (length y_pts - 2)) / (last x_pts - x_pts ! (length x_pts - 2)))"
    by (simp add: np_div_nonzero)
  note cell = piecewise_linear_cell(2)[OF si assms(4), unfolded dl dr]
  have L: "flt (arr ! i) (Fin (x_pts ! 0)) \<Longrightarrow>
          si ! i = fadd (Fin (y_pts ! 0))
                     (fmul (Fin ((y_pts ! 1 - y_pts ! 0) / (x_pts ! 1 - x_pts ! 0)))
                           (fsub (arr ! i) (Fin (x_pts ! 0))))"
    using cell flt_not_fgt[OF _ fl] by simp
  have R: "fgt (arr ! i) (Fin (last x_pts)) \<Longrightarrow>
          si ! i = fadd (Fin (last y_pts))
                     (fmul (Fin ((last y_pts - y_pts ! (length y_pts - 2))
                                 / (last x_pts - x_pts ! (length x_pts - 2))))
                           (fsub (arr ! i) (Fin (last x_pts))))"
    using cell by simp
  have F: "\<forall>v. arr ! i = Fin v \<longrightarrow>
          (v < x_pts ! 0 \<longrightarrow>
             si ! i = Fin (y_pts ! 0
                        + (y_pts ! 1 - y_pts ! 0) / (x_pts ! 1 - x_pts ! 0) * (v - x_pts ! 0)))
        \<and> (last x_pts < v \<longrightarrow>
             si ! i = Fin (last y_pts
                        + (last y_pts - y_pts ! (length y_pts - 2))
                          / (last x_pts - x_pts ! (length x_pts - 2)) * (v - last x_pts)))"
  proof (intro allI impI conjI)
    fix v assume v: "arr ! i = Fin v" and "v < x_pts ! 0"
    hence "flt (arr ! i) (Fin (x_pts ! 0))" by simp
    from L[OF this] show "si ! i = Fin (y_pts ! 0
                        + (y_pts ! 1 - y_pts ! 0) / (x_pts ! 1 - x_pts ! 0) * (v - x_pts ! 0))"
      by (simp add: v fsub_def)
  next
    fix v assume v: "arr ! i = Fin v" and "last x_pts < v"
    hence "fgt (arr ! i) (Fin (last x_pts))" by (simp add: fgt_def)
    from R[OF this] show "si ! i = Fin (last y_pts
                        + (last y_pts - y_pts ! (length y_pts - 2))
                          / (last x_pts - x_pts ! (length x_pts - 2)) * (v - last x_pts))"
      by (simp add: v fsub_def)
  qed
  show ?thesis using si L R F by blast
qed

theorem piecewise_linear_extrapolates_witness:
  "sorted_wrt (<) [0, 1, 2::real]
   \<and> flt ([Fin (-1), Fin 3] ! 0) (Fin ([0, 1, 2] ! 0))
   \<and> fgt ([Fin (-1), Fin 3] ! 1) (Fin (last [0, 1, 2]))
   \<and> (\<exists>si. piecewise_linear [Fin (-1), Fin 3] [0, 1, 2] [0, 1/2, 1] = Inr si
          \<and> si ! 0 = Fin (-1/2) \<and> si ! 1 = Fin (3/2))"
proof -
  have a: "sorted_wrt (<) [0, 1, 2::real]" by simp
  have b: "length [0, 1/2, 1::real] = length [0, 1, 2::real]" by simp
  have c: "2 \<le> length [0, 1, 2::real]" by simp
  have d: "0 < length [Fin (-1), Fin 3]" "1 < length [Fin (-1), Fin 3]" by simp_all
  have l: "flt ([Fin (-1), Fin 3] ! 0) (Fin ([0, 1, 2] ! 0))" by simp
  have r: "fgt ([Fin (-1), Fin 3] ! 1) (Fin (last [0, 1, 2]))" by (simp add: fgt_def)
  obtain s0 where s0: "piecewise_linear [Fin (-1), Fin 3] [0, 1, 2] [0, 1/2, 1] = Inr s0"
    and v0: "\<forall>v. [Fin (-1), Fin 3] ! 0 = Fin v \<longrightarrow>
          (v < [0, 1, 2] ! 0 \<longrightarrow>
             s0 ! 0 = Fin ([0, 1/2, 1] ! 0
                        + ([0, 1/2, 1] ! 1 - [0, 1/2, 1] ! 0) / ([0, 1, 2] ! 1 - [0, 1, 2] ! 0)
                          * (v - [0, 1, 2] ! 0)))"
    using piecewise_linear_extrapolates[OF a b c d(1)] by blast
  obtain s1 where s1: "piecewise_linear [Fin (-1), Fin 3] [0, 1, 2] [0, 1/2, 1] = Inr s1"
    and v1: "\<forall>v. [Fin (-1), Fin 3] ! 1 = Fin v \<longrightarrow>
          (last [0, 1, 2] < v \<longrightarrow>
             s1 ! 1 = Fin (last [0, 1/2, 1]
                        + (last [0, 1/2, 1] - [0, 1/2, 1] ! (length [0, 1/2, 1::real] - 2))
                          / (last [0, 1, 2] - [0, 1, 2] ! (length [0, 1, 2::real] - 2))
                          * (v - last [0, 1, 2])))"
    using piecewise_linear_extrapolates[OF a b c d(2)] by blast
  have e: "s1 = s0" using s0 s1 by simp
  have "s0 ! 0 = Fin (-1/2)" using v0[rule_format, of "-1"] by simp
  moreover have "s0 ! 1 = Fin (3/2)" using v1[rule_format, of 3] e by simp
  ultimately show ?thesis using a l r s0 by simp
qed



section \<open>Runs on the example inputs\<close>

lemma example_curves:
  "read_suitability_csv example_raw = ([0, 1], [0, 1], [0, 1], [1, 0])"
  by (simp add: read_suitability_csv_def example_raw_def dropna_def sort_values_def List.map_filter_def)

lemma example_curves_one:
  "read_suitability_csv example_raw_one = ([1], [1], [1], [1])"
  by (simp add: read_suitability_csv_def example_raw_one_def dropna_def sort_values_def List.map_filter_def)

lemma filled_example_dep: "filled (read_masked example_dep) NaN = [Fin 1, NaN]"
  by (simp add: filled_def read_masked_def example_dep_def is_nodata_def)

lemma filled_example_dep_neg: "filled (read_masked example_dep_neg) NaN = [Fin (-1), Fin 1]"
  by (simp add: filled_def read_masked_def example_dep_neg_def is_nodata_def)

lemma filled_example_dep_full: "filled (read_masked example_dep_full) NaN = [Fin 1, Fin 1]"
  by (simp add: filled_def read_masked_def example_dep_full_def is_nodata_def)

lemma filled_example_cell: "filled (read_masked example_cell) NaN = [Fin 1]"
  by (simp add: filled_def read_masked_def example_cell_def is_nodata_def)

lemma velocity_example_vel:
  "velocity rs example_dep example_vel
     = \<lparr>ma_shape = (1, 2), ma_data = [Fin 0, Fin 0], ma_mask = [False, False]\<rparr>"
  "velocity rs example_dep_neg example_vel
     = \<lparr>ma_shape = (1, 2), ma_data = [Fin 0, Fin 0], ma_mask = [False, False]\<rparr>"
  by (simp_all add: velocity_def vel_data_def masked_invalid_def read_masked_def
      example_dep_def example_dep_neg_def example_vel_def is_nodata_def isfinite_def)

lemma velocity_example_cell:
  "velocity rs example_cell example_cell
     = \<lparr>ma_shape = (1, 1), ma_data = [Fin 1], ma_mask = [False]\<rparr>"
  by (simp add: velocity_def vel_data_def masked_invalid_def read_masked_def
      example_cell_def is_nodata_def isfinite_def)

lemma velocity_example_vel_shifted:
  "velocity rs example_dep_full example_vel_shifted
     = \<lparr>ma_shape = (1, 2), ma_data = [Fin 0, Fin (-9999)], ma_mask = [False, False]\<rparr>"
  by (simp add: velocity_def vel_data_def masked_invalid_def read_out_shape_def
      example_dep_full_def example_vel_shifted_def isfinite_def)

lemma filled_velocity_example:
  "filled (velocity rs example_dep example_vel) NaN = [Fin 0, Fin 0]"
  "filled (velocity rs example_dep_neg example_vel) NaN = [Fin 0, Fin 0]"
  by (simp_all add: velocity_example_vel filled_def)

lemma filled_velocity_example_cell:
  "filled (velocity rs example_cell example_cell) NaN = [Fin 1]"
  by (simp add: velocity_example_cell filled_def)

lemma filled_velocity_example_shifted:
  "filled (velocity rs example_dep_full example_vel_shifted) NaN = [Fin 0, Fin (-9999)]"
  by (simp add: velocity_example_vel_shifted filled_def)

lemmas pl_defs = piecewise_linear_def np_interp_def interp_cell_def interp_cell_single_def
  extrapolate_left_def extrapolate_right_def
  np_any_def assign_where_def interp_in_range_def search_index_def fgt_def fsub_def np_div_def

lemma pl_example_1: "piecewise_linear [Fin 1, NaN] [0, 1] [0, 1] = Inr [Fin 1, NaN]"
  by (simp add: pl_defs)

lemma pl_example_2: "piecewise_linear [Fin 0, Fin 0] [0, 1] [1, 0] = Inr [Fin 1, Fin 1]"
  by (simp add: pl_defs)

lemma pl_example_3: "piecewise_linear [Fin (-1), Fin 1] [0, 1] [0, 1] = Inr [Fin (-1), Fin 1]"
  by (simp add: pl_defs)

lemma pl_example_4: "piecewise_linear [Fin 1, Fin 1] [0, 1] [0, 1] = Inr [Fin 1, Fin 1]"
  by (simp add: pl_defs)

lemma pl_example_5: "piecewise_linear [Fin 0, Fin (-9999)] [0, 1] [1, 0] = Inr [Fin 1, Fin 10000]"
  by (simp add: pl_defs)

lemma pl_example_6: "piecewise_linear [Fin 1] [1] [1] = Inr [Fin 1]"
  by (simp add: pl_defs)

lemma sqrt_10000: "sqrt 10000 = 100"
  by (rule real_sqrt_unique) simp_all

lemma example_run:
  "calculate_habitat rs example_dep example_vel example_raw t
     = Inr (summarize [Fin 1, NaN] [Fin 1, Fin 1] [Fin 1, NaN] t (10, 0, 0, 0, -10, 0))"
  by (simp add: calculate_habitat_def example_curves filled_example_dep filled_velocity_example
      pl_example_1 pl_example_2 chsi_of_def) (simp add: example_dep_def)

lemma example_run_neg:
  "calculate_habitat rs example_dep_neg example_vel example_raw t
     = Inr (summarize [Fin (-1), Fin 1] [Fin 1, Fin 1] [NaN, Fin 1] t (10, 0, 0, 0, -10, 0))"
  by (simp add: calculate_habitat_def example_curves filled_example_dep_neg filled_velocity_example
      pl_example_3 pl_example_2 chsi_of_def) (simp add: example_dep_neg_def)

lemma example_run_shifted:
  "calculate_habitat rs example_dep_full example_vel_shifted example_raw t
     = Inr (summarize [Fin 1, Fin 1] [Fin 1, Fin 10000] [Fin 1, Fin 100] t (10, 0, 0, 0, -10, 0))"
  by (simp add: calculate_habitat_def example_curves filled_example_dep_full
      filled_velocity_example_shifted pl_example_4 pl_example_5 chsi_of_def sqrt_10000)
     (simp add: example_dep_full_def)

lemma example_run_one:
  "calculate_habitat rs example_cell example_cell example_raw_one t
     = Inr (summarize [Fin 1] [Fin 1] [Fin 1] t (10, 0, 0, 0, -10, 0))"
  by (simp add: calculate_habitat_def example_curves_one filled_example_cell
      filled_velocity_example_cell pl_example_6 chsi_of_def)
     (simp add: example_cell_def)

section \<open>The statistics\<close>

lemma count_nonzero_usable:
  "count_nonzero (usable chsi t) = card {i. i < length chsi \<and> fgt (chsi ! i) t}"
proof -
  have "filter (\<lambda>b. b) (map (\<lambda>c. fgt c t) chsi) = map (\<lambda>c. fgt c t) (filter (\<lambda>c. fgt c t) chsi)"
    by (simp add: filter_map comp_def)
  hence "count_nonzero (usable chsi t) = length (filter (\<lambda>c. fgt c t) chsi)"
    by (simp add: count_nonzero_def usable_def)
  thus ?thesis by (simp add: length_filter_conv_card)
qed

lemma fgt_Fin_iff: "fgt u (Fin x) = (u = PInf \<or> (\<exists>c. u = Fin c \<and> x < c))"
  by (cases u) (simp_all add: fgt_def)

lemma fgt_NaN: "\<not> fgt NaN t" "\<not> fgt u NaN"
  by (cases t; simp add: fgt_def) (cases u; simp add: fgt_def)

lemma fgt_irrefl: "\<not> fgt t t"
  by (cases t) (simp_all add: fgt_def)

lemma flt_trans: "flt u v \<Longrightarrow> flt v w \<Longrightarrow> flt u w"
  by (cases u; cases v; cases w) simp_all

lemma calculate_habitat_Inr:
  assumes "calculate_habitat rs dep_src vel_src raw threshold = Inr r"
  obtains h_pts si_h_pts v_pts si_v_pts si_h si_v where
    "read_suitability_csv raw = (h_pts, si_h_pts, v_pts, si_v_pts)"
    "piecewise_linear (filled (read_masked dep_src) NaN) h_pts si_h_pts = Inr si_h"
    "piecewise_linear (filled (velocity rs dep_src vel_src) NaN) v_pts si_v_pts = Inr si_v"
    "r = summarize si_h si_v (chsi_of si_h si_v) threshold (transform dep_src)"
  using assms unfolding calculate_habitat_def
  by (auto split: prod.splits sum.splits)

lemma summarize_fields:
  "r_si_h (summarize si_h si_v chsi t tr) = si_h"
  "r_si_v (summarize si_h si_v chsi t tr) = si_v"
  "r_chsi (summarize si_h si_v chsi t tr) = chsi"
  "r_n_pixels (summarize si_h si_v chsi t tr) = count_nonzero (usable chsi t)"
  "r_pixel_area_m2 (summarize si_h si_v chsi t tr) = \<bar>transform0 tr * transform4 tr\<bar>"
  "r_total_area_m2 (summarize si_h si_v chsi t tr)
     = real (count_nonzero (usable chsi t)) * \<bar>transform0 tr * transform4 tr\<bar>"
  by (simp_all add: summarize_def Let_def)

text \<open>
  C6. In the summary of a run, the usable-pixel count is the number of cells whose cHSI
  is strictly greater than the threshold (for a finite threshold: the cells with a
  finite cHSI above it, or an infinite one); a cell equal to the threshold and a missing
  cell are not usable. The pixel area is \<open>abs(transform[0] * transform[4])\<close> of the
  depth raster's transform, and the total area is the count times the pixel area.
\<close>

theorem habitat_summary:
  assumes "calculate_habitat rs dep_src vel_src raw threshold = Inr r"
  shows "r_n_pixels r = card {i. i < length (r_chsi r) \<and> fgt (r_chsi r ! i) threshold}
     \<and> (\<forall>x. threshold = Fin x \<longrightarrow>
           r_n_pixels r = card {i. i < length (r_chsi r)
                                  \<and> (r_chsi r ! i = PInf \<or> (\<exists>c. r_chsi r ! i = Fin c \<and> x < c))})
     \<and> (\<forall>i<length (r_chsi r). r_chsi r ! i = threshold \<or> r_chsi r ! i = NaN
           \<longrightarrow> \<not> usable (r_chsi r) threshold ! i)
     \<and> r_pixel_area_m2 r = \<bar>transform0 (transform dep_src) * transform4 (transform dep_src)\<bar>
     \<and> r_total_area_m2 r = real (r_n_pixels r) * r_pixel_area_m2 r"
proof -
  obtain si_h si_v where
    r: "r = summarize si_h si_v (chsi_of si_h si_v) threshold (transform dep_src)"
    using assms by (rule calculate_habitat_Inr)
  have n: "r_n_pixels r = card {i. i < length (r_chsi r) \<and> fgt (r_chsi r ! i) threshold}"
    unfolding r summarize_fields by (rule count_nonzero_usable)
  have nf: "\<forall>x. threshold = Fin x \<longrightarrow>
           r_n_pixels r = card {i. i < length (r_chsi r)
                                  \<and> (r_chsi r ! i = PInf \<or> (\<exists>c. r_chsi r ! i = Fin c \<and> x < c))}"
    using n by (simp add: fgt_Fin_iff)
  have u: "\<forall>i<length (r_chsi r). r_chsi r ! i = threshold \<or> r_chsi r ! i = NaN
           \<longrightarrow> \<not> usable (r_chsi r) threshold ! i"
    by (auto simp: usable_def fgt_irrefl fgt_NaN)
  have a: "r_pixel_area_m2 r = \<bar>transform0 (transform dep_src) * transform4 (transform dep_src)\<bar>"
    unfolding r summarize_fields ..
  have t: "r_total_area_m2 r = real (r_n_pixels r) * r_pixel_area_m2 r"
    unfolding r summarize_fields ..
  show ?thesis using n nf u a t by blast
qed

lemma filter_length_mono:
  "(\<And>x. P x \<Longrightarrow> Q x) \<Longrightarrow> length (filter P xs) \<le> length (filter Q xs)"
  by (induction xs) auto

lemma count_usable_antitone:
  assumes "flt t1 t2"
  shows "count_nonzero (usable chsi t2) \<le> count_nonzero (usable chsi t1)"
proof -
  have e: "\<And>t. count_nonzero (usable chsi t) = length (filter (\<lambda>c. fgt c t) chsi)"
    by (simp add: count_nonzero_usable length_filter_conv_card)
  have "\<And>c. fgt c t2 \<Longrightarrow> fgt c t1" using assms by (auto simp: fgt_def intro: flt_trans)
  thus ?thesis unfolding e by (rule filter_length_mono)
qed

lemma runs_antitone:
  assumes "flt t1 t2"
    and "calculate_habitat rs dep_src vel_src raw t1 = Inr r1"
    and "calculate_habitat rs dep_src vel_src raw t2 = Inr r2"
  shows "r_chsi r1 = r_chsi r2 \<and> r_n_pixels r2 \<le> r_n_pixels r1"
proof -
  obtain h1 sh1 v1 sv1 a1 b1 where 1:
    "read_suitability_csv raw = (h1, sh1, v1, sv1)"
    "piecewise_linear (filled (read_masked dep_src) NaN) h1 sh1 = Inr a1"
    "piecewise_linear (filled (velocity rs dep_src vel_src) NaN) v1 sv1 = Inr b1"
    "r1 = summarize a1 b1 (chsi_of a1 b1) t1 (transform dep_src)"
    using assms(2) by (rule calculate_habitat_Inr)
  obtain h2 sh2 v2 sv2 a2 b2 where 2:
    "read_suitability_csv raw = (h2, sh2, v2, sv2)"
    "piecewise_linear (filled (read_masked dep_src) NaN) h2 sh2 = Inr a2"
    "piecewise_linear (filled (velocity rs dep_src vel_src) NaN) v2 sv2 = Inr b2"
    "r2 = summarize a2 b2 (chsi_of a2 b2) t2 (transform dep_src)"
    using assms(3) by (rule calculate_habitat_Inr)
  have "a1 = a2" "b1 = b2" using 1(1,2,3) 2(1,2,3) by simp_all
  thus ?thesis
    unfolding 1(4) 2(4) summarize_fields using count_usable_antitone[OF assms(1)] by simp
qed

text \<open>
  C9. The usable-pixel count is antitone in the threshold: for every cHSI raster and
  thresholds \<open>t1 < t2\<close>, the count for \<open>t2\<close> is at most the count for \<open>t1\<close>. Two
  runs on the same inputs with these thresholds have the same cHSI raster, hence counts
  in that order.
\<close>

theorem usable_pixel_count_antitone:
  assumes "flt t1 t2"
  shows "r_n_pixels (summarize si_h si_v chsi t2 tr) \<le> r_n_pixels (summarize si_h si_v chsi t1 tr)
     \<and> (\<forall>r1 r2. calculate_habitat rs dep_src vel_src raw t1 = Inr r1
                \<and> calculate_habitat rs dep_src vel_src raw t2 = Inr r2
           \<longrightarrow> r_chsi r1 = r_chsi r2 \<and> r_n_pixels r2 \<le> r_n_pixels r1)"
proof -
  have "r_n_pixels (summarize si_h si_v chsi t2 tr) \<le> r_n_pixels (summarize si_h si_v chsi t1 tr)"
    unfolding summarize_fields using assms by (rule count_usable_antitone)
  thus ?thesis using runs_antitone[OF assms] by blast
qed

theorem habitat_summary_witness:
  "\<exists>r. calculate_habitat example_rs example_dep example_vel example_raw (Fin (3/5)) = Inr r
      \<and> r_chsi r = [Fin 1, NaN]
      \<and> r_n_pixels r = card {i. i < length (r_chsi r) \<and> fgt (r_chsi r ! i) (Fin (3/5))}
      \<and> r_n_pixels r = 1
      \<and> r_pixel_area_m2 r = 100
      \<and> r_total_area_m2 r = 100"
proof -
  let ?r = "summarize [Fin 1, NaN] [Fin 1, Fin 1] [Fin 1, NaN] (Fin (3/5)) (10, 0, 0, 0, -10, 0)"
  have run: "calculate_habitat example_rs example_dep example_vel example_raw (Fin (3/5)) = Inr ?r"
    by (rule example_run)
  have n: "r_n_pixels ?r = 1"
    by (simp add: summarize_fields usable_def count_nonzero_def fgt_def)
  have tr: "transform example_dep = (10, 0, 0, 0, -10, 0)" by (simp add: example_dep_def)
  from habitat_summary[OF run]
  have "r_n_pixels ?r = card {i. i < length (r_chsi ?r) \<and> fgt (r_chsi ?r ! i) (Fin (3/5))}"
    and "r_pixel_area_m2 ?r = 100" and "r_total_area_m2 ?r = real (r_n_pixels ?r) * r_pixel_area_m2 ?r"
    by (simp_all add: tr)
  moreover have "r_chsi ?r = [Fin 1, NaN]" by (simp add: summarize_fields)
  ultimately show ?thesis using run n by (intro exI[of _ ?r]) simp
qed

theorem usable_pixel_count_antitone_witness:
  "flt (Fin (1/2)) (Fin 2)
   \<and> (\<exists>r1 r2. calculate_habitat example_rs example_dep example_vel example_raw (Fin (1/2)) = Inr r1
         \<and> calculate_habitat example_rs example_dep example_vel example_raw (Fin 2) = Inr r2
         \<and> r_n_pixels r1 = 1 \<and> r_n_pixels r2 = 0 \<and> r_n_pixels r2 \<le> r_n_pixels r1)"
proof -
  let ?r1 = "summarize [Fin 1, NaN] [Fin 1, Fin 1] [Fin 1, NaN] (Fin (1/2)) (10, 0, 0, 0, -10, 0)"
  let ?r2 = "summarize [Fin 1, NaN] [Fin 1, Fin 1] [Fin 1, NaN] (Fin 2) (10, 0, 0, 0, -10, 0)"
  have lt: "flt (Fin (1/2)) (Fin 2)" by simp
  have 1: "calculate_habitat example_rs example_dep example_vel example_raw (Fin (1/2)) = Inr ?r1"
    by (rule example_run)
  have 2: "calculate_habitat example_rs example_dep example_vel example_raw (Fin 2) = Inr ?r2"
    by (rule example_run)
  have n: "r_n_pixels ?r1 = 1" "r_n_pixels ?r2 = 0"
    by (simp_all add: summarize_fields usable_def count_nonzero_def fgt_def)
  have "r_n_pixels ?r2 \<le> r_n_pixels ?r1"
    using usable_pixel_count_antitone[OF lt, of _ _ _ _ example_rs example_dep example_vel example_raw]
      1 2 by blast
  thus ?thesis using lt 1 2 n by blast
qed

section \<open>The composite index\<close>

lemma chsi_of_nth:
  "i < length si_h \<Longrightarrow> i < length si_v \<Longrightarrow> chsi_of si_h si_v ! i = np_sqrt (fmul (si_h ! i) (si_v ! i))"
  by (simp add: chsi_of_def)

lemma chsi_of_length: "length (chsi_of si_h si_v) = min (length si_h) (length si_v)"
  by (simp add: chsi_of_def)

lemma np_sqrt_negative: "flt u (Fin 0) \<Longrightarrow> np_sqrt u = NaN"
  by (cases u) simp_all

lemma fmul_NaN: "fmul NaN u = NaN" "fmul u NaN = NaN"
  by (cases u; simp)+

text \<open>
  C5. Once both SI rasters are computed the run returns: line 120 raises nothing. Every
  cell of the cHSI raster is \<open>sqrt(si_h * si_v)\<close>; where the product is negative the
  cell is NaN, and where both SI values are finite with a non-negative product it is
  the square root of the product.
\<close>

theorem composite_negative_product:
  assumes "read_suitability_csv raw = (h_pts, si_h_pts, v_pts, si_v_pts)"
    and "piecewise_linear (filled (read_masked dep_src) NaN) h_pts si_h_pts = Inr si_h"
    and "piecewise_linear (filled (velocity rs dep_src vel_src) NaN) v_pts si_v_pts = Inr si_v"
  shows "\<exists>r. calculate_habitat rs dep_src vel_src raw threshold = Inr r
     \<and> r_si_h r = si_h \<and> r_si_v r = si_v
     \<and> length (r_chsi r) = min (length si_h) (length si_v)
     \<and> (\<forall>i. i < length si_h \<and> i < length si_v \<longrightarrow>
           r_chsi r ! i = np_sqrt (fmul (si_h ! i) (si_v ! i))
         \<and> (flt (fmul (si_h ! i) (si_v ! i)) (Fin 0) \<longrightarrow> r_chsi r ! i = NaN)
         \<and> (\<forall>p q. si_h ! i = Fin p \<and> si_v ! i = Fin q \<and> 0 \<le> p * q
                \<longrightarrow> r_chsi r ! i = Fin (sqrt (p * q))))"
proof -
  let ?r = "summarize si_h si_v (chsi_of si_h si_v) threshold (transform dep_src)"
  have run: "calculate_habitat rs dep_src vel_src raw threshold = Inr ?r"
    by (simp add: calculate_habitat_def assms)
  have cells: "\<forall>i. i < length si_h \<and> i < length si_v \<longrightarrow>
           r_chsi ?r ! i = np_sqrt (fmul (si_h ! i) (si_v ! i))
         \<and> (flt (fmul (si_h ! i) (si_v ! i)) (Fin 0) \<longrightarrow> r_chsi ?r ! i = NaN)
         \<and> (\<forall>p q. si_h ! i = Fin p \<and> si_v ! i = Fin q \<and> 0 \<le> p * q
                \<longrightarrow> r_chsi ?r ! i = Fin (sqrt (p * q)))"
    by (auto simp: summarize_fields chsi_of_nth np_sqrt_negative)
  have f: "r_si_h ?r = si_h" "r_si_v ?r = si_v"
    "length (r_chsi ?r) = min (length si_h) (length si_v)"
    by (simp_all add: summarize_fields chsi_of_length)
  show ?thesis
    using run f cells by blast
qed

theorem composite_negative_product_witness:
  "\<exists>r. calculate_habitat example_rs example_dep_neg example_vel example_raw (Fin (3/5)) = Inr r
      \<and> r_si_h r = [Fin (-1), Fin 1] \<and> r_si_v r = [Fin 1, Fin 1]
      \<and> flt (fmul (r_si_h r ! 0) (r_si_v r ! 0)) (Fin 0)
      \<and> r_chsi r ! 0 = NaN \<and> r_chsi r ! 1 = Fin 1"
proof -
  have a: "read_suitability_csv example_raw = ([0, 1], [0, 1], [0, 1], [1, 0])"
    by (rule example_curves)
  have b: "piecewise_linear (filled (read_masked example_dep_neg) NaN) [0, 1] [0, 1]
             = Inr [Fin (-1), Fin 1]"
    by (simp add: filled_example_dep_neg pl_example_3)
  have c: "piecewise_linear (filled (velocity example_rs example_dep_neg example_vel) NaN) [0, 1] [1, 0]
             = Inr [Fin 1, Fin 1]"
    by (simp add: filled_velocity_example pl_example_2)
  obtain r where r: "calculate_habitat example_rs example_dep_neg example_vel example_raw (Fin (3/5)) = Inr r"
      "r_si_h r = [Fin (-1), Fin 1]" "r_si_v r = [Fin 1, Fin 1]"
    and cells: "\<forall>i. i < length [Fin (-1), Fin 1::fval] \<and> i < length [Fin 1, Fin 1::fval] \<longrightarrow>
           r_chsi r ! i = np_sqrt (fmul ([Fin (-1), Fin 1] ! i) ([Fin 1, Fin 1] ! i))"
    using composite_negative_product[OF a b c, of "Fin (3/5)"] by blast
  have "r_chsi r ! 0 = NaN" using cells[rule_format, of 0] by simp
  moreover have "r_chsi r ! 1 = Fin 1" using cells[rule_format, of 1] by simp
  ultimately show ?thesis using r by (intro exI[of _ r]) simp
qed

section \<open>Curve loading\<close>

lemma dropna_length:
  "length (dropna df) = length (filter (\<lambda>(p, q). p \<noteq> None \<and> q \<noteq> None) df)"
proof (induction df)
  case Nil show ?case by (simp add: dropna_def List.map_filter_simps)
next
  case (Cons a df)
  obtain p q where a: "a = (p, q)" by (cases a)
  show ?case using Cons
    by (cases p; cases q) (simp_all add: dropna_def List.map_filter_simps a)
qed

lemma dropna_set: "set (dropna df) = {(x, y). (Some x, Some y) \<in> set df}"
proof (induction df)
  case Nil show ?case by (simp add: dropna_def List.map_filter_simps)
next
  case (Cons a df)
  obtain p q where a: "a = (p, q)" by (cases a)
  show ?case using Cons
    by (cases p; cases q) (auto simp: dropna_def List.map_filter_simps a)
qed

lemma sort_values_props:
  "length (sort_values df) = length df" "set (sort_values df) = set df"
  "sorted (map fst (sort_values df))"
  by (simp_all add: sort_values_def sorted_sort_key)

lemma read_suitability_csv_props:
  obtains h_pts si_h_pts v_pts si_v_pts where
    "read_suitability_csv raw = (h_pts, si_h_pts, v_pts, si_v_pts)"
    "length si_h_pts = length h_pts"
    "length h_pts = length (filter (\<lambda>(h, si_h, v, si_v). h \<noteq> None \<and> si_h \<noteq> None) raw)"
    "length si_v_pts = length v_pts"
    "length v_pts = length (filter (\<lambda>(h, si_h, v, si_v). v \<noteq> None \<and> si_v \<noteq> None) raw)"
    "sorted h_pts" "sorted v_pts"
    "set (zip h_pts si_h_pts) = {(x, y). \<exists>v si_v. (Some x, Some y, v, si_v) \<in> set raw}"
    "set (zip v_pts si_v_pts) = {(x, y). \<exists>h si_h. (h, si_h, Some x, Some y) \<in> set raw}"
proof -
  let ?d = "sort_values (dropna (map (\<lambda>(h, si_h, v, si_v). (h, si_h)) raw))"
  let ?v = "sort_values (dropna (map (\<lambda>(h, si_h, v, si_v). (v, si_v)) raw))"
  have r: "read_suitability_csv raw = (map fst ?d, map snd ?d, map fst ?v, map snd ?v)"
    by (simp add: read_suitability_csv_def Let_def)
  have ld: "length (map fst ?d) = length (filter (\<lambda>(h, si_h, v, si_v). h \<noteq> None \<and> si_h \<noteq> None) raw)"
    by (simp add: sort_values_props dropna_length filter_map comp_def case_prod_unfold)
  have lv: "length (map fst ?v) = length (filter (\<lambda>(h, si_h, v, si_v). v \<noteq> None \<and> si_v \<noteq> None) raw)"
    by (simp add: sort_values_props dropna_length filter_map comp_def case_prod_unfold)
  have sd: "set (zip (map fst ?d) (map snd ?d)) = {(x, y). \<exists>v si_v. (Some x, Some y, v, si_v) \<in> set raw}"
    by (force simp: zip_map_fst_snd sort_values_props dropna_set)
  have sv: "set (zip (map fst ?v) (map snd ?v)) = {(x, y). \<exists>h si_h. (h, si_h, Some x, Some y) \<in> set raw}"
    by (force simp: zip_map_fst_snd sort_values_props dropna_set)
  show ?thesis
    by (rule that[OF r _ ld _ lv _ _ sd sv]) (simp_all add: sort_values_props)
qed

lemma piecewise_linear_empty: "piecewise_linear arr [] [] = Inl ValueError"
  by (simp add: piecewise_linear_def np_interp_def)

lemma interp_cell_one: "interp_cell [x] [y] v = Fin y"
  by (simp add: interp_cell_def interp_cell_single_def)

lemma piecewise_linear_one:
  "piecewise_linear arr [x] [y] =
     (if \<exists>i<length arr. flt (arr ! i) (Fin x) \<or> fgt (arr ! i) (Fin x) then Inl IndexError
      else Inr (map (\<lambda>v. Fin y) arr))"
proof -
  have i: "np_interp arr [x] [y] = Inr (map (\<lambda>v. Fin y) arr)"
    by (simp add: np_interp_def interp_cell_one)
  have l: "\<And>si. extrapolate_left arr [x] [y] si =
             (if \<exists>i<length arr. flt (arr ! i) (Fin x) then Inl IndexError else Inr si)"
    by (simp add: extrapolate_left_def Let_def np_any_map)
  have r: "\<And>si. extrapolate_right arr [x] [y] si =
             (if \<exists>i<length arr. fgt (arr ! i) (Fin x) then Inl IndexError else Inr si)"
    by (simp add: extrapolate_right_def Let_def np_any_map)
  show ?thesis
    unfolding piecewise_linear_def i l r by auto
qed

text \<open>
  C8, as amended. Curve loading has no check on the number of break points: for every
  table it returns, for each variable, the complete pairs of the table sorted by x,
  however few they are. With fewer than two break points a failure comes only later,
  from the interpolation: ValueError for an empty curve, IndexError for a curve of one
  point when some cell lies below or above its x; when no cell does, a curve of one
  point gives its y at every cell, the missing ones included.
\<close>

theorem curve_loading_unchecked:
  "(\<exists>h_pts si_h_pts v_pts si_v_pts.
      read_suitability_csv raw = (h_pts, si_h_pts, v_pts, si_v_pts)
      \<and> length si_h_pts = length h_pts
      \<and> length h_pts = length (filter (\<lambda>(h, si_h, v, si_v). h \<noteq> None \<and> si_h \<noteq> None) raw)
      \<and> length si_v_pts = length v_pts
      \<and> length v_pts = length (filter (\<lambda>(h, si_h, v, si_v). v \<noteq> None \<and> si_v \<noteq> None) raw)
      \<and> sorted h_pts \<and> sorted v_pts
      \<and> set (zip h_pts si_h_pts) = {(x, y). \<exists>v si_v. (Some x, Some y, v, si_v) \<in> set raw}
      \<and> set (zip v_pts si_v_pts) = {(x, y). \<exists>h si_h. (h, si_h, Some x, Some y) \<in> set raw})
   \<and> piecewise_linear arr [] [] = Inl ValueError
   \<and> piecewise_linear arr [x] [y] =
       (if \<exists>i<length arr. flt (arr ! i) (Fin x) \<or> fgt (arr ! i) (Fin x) then Inl IndexError
        else Inr (map (\<lambda>v. Fin y) arr))"
proof -
  obtain h_pts si_h_pts v_pts si_v_pts where
    "read_suitability_csv raw = (h_pts, si_h_pts, v_pts, si_v_pts)"
    "length si_h_pts = length h_pts"
    "length h_pts = length (filter (\<lambda>(h, si_h, v, si_v). h \<noteq> None \<and> si_h \<noteq> None) raw)"
    "length si_v_pts = length v_pts"
    "length v_pts = length (filter (\<lambda>(h, si_h, v, si_v). v \<noteq> None \<and> si_v \<noteq> None) raw)"
    "sorted h_pts" "sorted v_pts"
    "set (zip h_pts si_h_pts) = {(x, y). \<exists>v si_v. (Some x, Some y, v, si_v) \<in> set raw}"
    "set (zip v_pts si_v_pts) = {(x, y). \<exists>h si_h. (h, si_h, Some x, Some y) \<in> set raw}"
    by (rule read_suitability_csv_props)
  hence "\<exists>h_pts si_h_pts v_pts si_v_pts.
      read_suitability_csv raw = (h_pts, si_h_pts, v_pts, si_v_pts)
      \<and> length si_h_pts = length h_pts
      \<and> length h_pts = length (filter (\<lambda>(h, si_h, v, si_v). h \<noteq> None \<and> si_h \<noteq> None) raw)
      \<and> length si_v_pts = length v_pts
      \<and> length v_pts = length (filter (\<lambda>(h, si_h, v, si_v). v \<noteq> None \<and> si_v \<noteq> None) raw)
      \<and> sorted h_pts \<and> sorted v_pts
      \<and> set (zip h_pts si_h_pts) = {(x, y). \<exists>v si_v. (Some x, Some y, v, si_v) \<in> set raw}
      \<and> set (zip v_pts si_v_pts) = {(x, y). \<exists>h si_h. (h, si_h, Some x, Some y) \<in> set raw}"
    by blast
  thus ?thesis using piecewise_linear_empty piecewise_linear_one by blast
qed

section \<open>Grid alignment and missing cells\<close>

lemma piecewise_linear_NaN:
  assumes "piecewise_linear arr x_pts y_pts = Inr si" "i < length arr" "arr ! i = NaN"
    and "length x_pts \<noteq> 1"
  shows "si ! i = NaN"
  using piecewise_linear_cell(2)[OF assms(1,2)] assms(3,4) by (simp add: fgt_def interp_cell_def)

lemma filled_nth:
  "i < length (ma_data m) \<Longrightarrow> i < length (ma_mask m) \<Longrightarrow>
   filled m fill_value ! i = (if ma_mask m ! i then fill_value else ma_data m ! i)"
  by (simp add: filled_def)

lemma filled_length: "length (filled m fill_value) = min (length (ma_data m)) (length (ma_mask m))"
  by (simp add: filled_def)

lemma read_masked_fields:
  "ma_shape (read_masked src) = (height src, width src)"
  "ma_data (read_masked src) = band src"
  "ma_mask (read_masked src) = map (is_nodata (nodata src)) (band src)"
  by (simp_all add: read_masked_def)

lemma read_out_shape_fields:
  "ma_shape (read_out_shape rs src hw) = hw"
  "length (ma_mask (read_out_shape rs src hw)) = length (ma_data (read_out_shape rs src hw))"
  "i < length (ma_data (read_out_shape rs src hw)) \<Longrightarrow> \<not> ma_mask (read_out_shape rs src hw) ! i"
  "length (band src) = height src * width src \<Longrightarrow>
     length (ma_data (read_out_shape rs src (h, w))) = h * w"
  by (auto simp: read_out_shape_def Let_def)

lemma masked_invalid_fields:
  "ma_shape (masked_invalid m) = ma_shape m"
  "ma_data (masked_invalid m) = ma_data m"
  "length (ma_mask (masked_invalid m)) = min (length (ma_data m)) (length (ma_mask m))"
  "i < length (ma_data m) \<Longrightarrow> i < length (ma_mask m) \<Longrightarrow>
     ma_mask (masked_invalid m) ! i = (ma_mask m ! i \<or> \<not> isfinite (ma_data m ! i))"
  by (simp_all add: masked_invalid_def)

text \<open>What lines 100 to 113 do on each path.\<close>

lemma velocity_same_grid:
  assumes "width vel_src = width dep_src" "height vel_src = height dep_src"
    "transform vel_src = transform dep_src"
  shows "ma_shape (velocity rs dep_src vel_src) = (height dep_src, width dep_src)"
    and "ma_data (velocity rs dep_src vel_src) = band vel_src"
    and "length (ma_mask (velocity rs dep_src vel_src)) = length (band vel_src)"
    and "i < length (band vel_src) \<Longrightarrow>
          ma_mask (velocity rs dep_src vel_src) ! i
            = (is_nodata (nodata vel_src) (band vel_src ! i) \<or> \<not> isfinite (band vel_src ! i))"
  using assms
  by (simp_all add: velocity_def vel_data_def masked_invalid_fields read_masked_fields)

lemma velocity_other_grid:
  assumes "width vel_src \<noteq> width dep_src \<or> height vel_src \<noteq> height dep_src
           \<or> transform vel_src \<noteq> transform dep_src"
  shows "ma_shape (velocity rs dep_src vel_src) = (height dep_src, width dep_src)"
    and "ma_data (velocity rs dep_src vel_src)
           = ma_data (read_out_shape rs vel_src (height dep_src, width dep_src))"
    and "i < length (ma_data (velocity rs dep_src vel_src)) \<Longrightarrow>
          ma_mask (velocity rs dep_src vel_src) ! i
            = (\<not> isfinite (ma_data (velocity rs dep_src vel_src) ! i))"
proof -
  have v: "velocity rs dep_src vel_src
             = masked_invalid (read_out_shape rs vel_src (height dep_src, width dep_src))"
    using assms by (auto simp: velocity_def vel_data_def)
  show "ma_shape (velocity rs dep_src vel_src) = (height dep_src, width dep_src)"
    by (simp add: v masked_invalid_fields read_out_shape_fields)
  show "ma_data (velocity rs dep_src vel_src)
           = ma_data (read_out_shape rs vel_src (height dep_src, width dep_src))"
    by (simp add: v masked_invalid_fields)
  assume "i < length (ma_data (velocity rs dep_src vel_src))"
  thus "ma_mask (velocity rs dep_src vel_src) ! i
            = (\<not> isfinite (ma_data (velocity rs dep_src vel_src) ! i))"
    by (simp add: v masked_invalid_fields read_out_shape_fields)
qed

lemma velocity_shape:
  "ma_shape (velocity rs dep_src vel_src) = (height dep_src, width dep_src)"
  by (cases "width vel_src = width dep_src \<and> height vel_src = height dep_src
             \<and> transform vel_src = transform dep_src")
     (simp_all add: velocity_same_grid velocity_other_grid)

lemma velocity_cells:
  assumes "length (band dep_src) = height dep_src * width dep_src"
    and "length (band vel_src) = height vel_src * width vel_src"
  shows "length (ma_data (velocity rs dep_src vel_src)) = length (band dep_src)"
    and "length (ma_mask (velocity rs dep_src vel_src)) = length (band dep_src)"
proof -
  show d: "length (ma_data (velocity rs dep_src vel_src)) = length (band dep_src)"
    using assms
    by (auto simp: velocity_def vel_data_def masked_invalid_fields read_masked_fields
        read_out_shape_fields)
  show "length (ma_mask (velocity rs dep_src vel_src)) = length (band dep_src)"
    using assms
    by (auto simp: velocity_def vel_data_def masked_invalid_fields read_masked_fields
        read_out_shape_fields)
qed

text \<open>
  What holds of the propagation of missing cells, on every run that returns: the last
  two facts always, the first two when no curve has exactly one break point (with one
  break point \<open>np.interp\<close> gives every cell, a missing one too, the curve's y).
\<close>

lemma missing_propagates:
  assumes "calculate_habitat rs dep_src vel_src raw threshold = Inr r"
    and "read_suitability_csv raw = (h_pts, si_h_pts, v_pts, si_v_pts)"
    and "length h_pts \<noteq> 1" and "length v_pts \<noteq> 1"
  shows "i < length (band dep_src) \<Longrightarrow> is_nodata (nodata dep_src) (band dep_src ! i)
           \<Longrightarrow> r_si_h r ! i = NaN"
    and "i < length (ma_data (velocity rs dep_src vel_src))
           \<Longrightarrow> i < length (ma_mask (velocity rs dep_src vel_src))
           \<Longrightarrow> ma_mask (velocity rs dep_src vel_src) ! i \<Longrightarrow> r_si_v r ! i = NaN"
    and "i < length (r_si_h r) \<Longrightarrow> i < length (r_si_v r)
           \<Longrightarrow> r_si_h r ! i = NaN \<or> r_si_v r ! i = NaN \<Longrightarrow> r_chsi r ! i = NaN"
    and "i < length (r_chsi r) \<Longrightarrow> r_chsi r ! i = NaN \<Longrightarrow> \<not> usable (r_chsi r) threshold ! i"
proof -
  obtain h' sh' v' sv' si_h si_v where
    c: "read_suitability_csv raw = (h', sh', v', sv')" and
    h': "piecewise_linear (filled (read_masked dep_src) NaN) h' sh' = Inr si_h" and
    v': "piecewise_linear (filled (velocity rs dep_src vel_src) NaN) v' sv' = Inr si_v" and
    r: "r = summarize si_h si_v (chsi_of si_h si_v) threshold (transform dep_src)"
    using assms(1) by (rule calculate_habitat_Inr)
  have e: "h' = h_pts" "sh' = si_h_pts" "v' = v_pts" "sv' = si_v_pts"
    using c assms(2) by simp_all
  have h: "piecewise_linear (filled (read_masked dep_src) NaN) h_pts si_h_pts = Inr si_h"
    using h' e by simp
  have v: "piecewise_linear (filled (velocity rs dep_src vel_src) NaN) v_pts si_v_pts = Inr si_v"
    using v' e by simp
  show "i < length (band dep_src) \<Longrightarrow> is_nodata (nodata dep_src) (band dep_src ! i)
           \<Longrightarrow> r_si_h r ! i = NaN"
  proof -
    assume i: "i < length (band dep_src)" and m: "is_nodata (nodata dep_src) (band dep_src ! i)"
    have "i < length (filled (read_masked dep_src) NaN)"
      using i by (simp add: filled_length read_masked_fields)
    moreover have "filled (read_masked dep_src) NaN ! i = NaN"
      using i m by (simp add: filled_nth read_masked_fields)
    ultimately have "si_h ! i = NaN" using h assms(3) piecewise_linear_NaN by blast
    thus ?thesis by (simp add: r summarize_fields)
  qed
  show "i < length (ma_data (velocity rs dep_src vel_src))
           \<Longrightarrow> i < length (ma_mask (velocity rs dep_src vel_src))
           \<Longrightarrow> ma_mask (velocity rs dep_src vel_src) ! i \<Longrightarrow> r_si_v r ! i = NaN"
  proof -
    assume i: "i < length (ma_data (velocity rs dep_src vel_src))"
      "i < length (ma_mask (velocity rs dep_src vel_src))"
      and m: "ma_mask (velocity rs dep_src vel_src) ! i"
    have "i < length (filled (velocity rs dep_src vel_src) NaN)"
      using i by (simp add: filled_length)
    moreover have "filled (velocity rs dep_src vel_src) NaN ! i = NaN"
      using i m by (simp add: filled_nth)
    ultimately have "si_v ! i = NaN" using v assms(4) piecewise_linear_NaN by blast
    thus ?thesis by (simp add: r summarize_fields)
  qed
  show "i < length (r_si_h r) \<Longrightarrow> i < length (r_si_v r)
           \<Longrightarrow> r_si_h r ! i = NaN \<or> r_si_v r ! i = NaN \<Longrightarrow> r_chsi r ! i = NaN"
    by (auto simp: r summarize_fields chsi_of_nth fmul_NaN)
  show "i < length (r_chsi r) \<Longrightarrow> r_chsi r ! i = NaN \<Longrightarrow> \<not> usable (r_chsi r) threshold ! i"
    by (simp add: usable_def fgt_NaN)
qed

lemma summarize_example_shifted:
  "summarize [Fin 1, Fin 1] [Fin 1, Fin 10000] [Fin 1, Fin 100] (Fin (3/5)) (10, 0, 0, 0, -10, 0)
     = \<lparr>r_si_h = [Fin 1, Fin 1], r_si_v = [Fin 1, Fin 10000], r_chsi = [Fin 1, Fin 100],
        r_n_pixels = 2, r_pixel_area_m2 = 100, r_total_area_m2 = 200\<rparr>"
  by (simp add: summarize_def usable_def count_nonzero_def fgt_def)

lemma summarize_example_one:
  "summarize [Fin 1] [Fin 1] [Fin 1] (Fin (3/5)) (10, 0, 0, 0, -10, 0)
     = \<lparr>r_si_h = [Fin 1], r_si_v = [Fin 1], r_chsi = [Fin 1],
        r_n_pixels = 1, r_pixel_area_m2 = 100, r_total_area_m2 = 100\<rparr>"
  by (simp add: summarize_def usable_def count_nonzero_def fgt_def)

text \<open>
  C4. Lemma \<open>missing_propagates\<close> gives what holds on every run with curves of two
  break points or more: a nodata cell of the depth raster and a masked cell of the
  velocity array are NaN in their SI raster, a NaN in either SI raster is a NaN in the
  cHSI raster, and a NaN is never usable. The cell
  that is missing in a velocity raster on another grid is not masked, though: on the
  depth raster with two valid cells and the shifted velocity raster whose second cell is
  nodata, the run gives that cell the SI 10000 and the cHSI 100 and counts it as usable.
\<close>

theorem missing_velocity_cell_counted:
  "is_nodata (nodata example_vel_shifted) (band example_vel_shifted ! 1)
   \<and> calculate_habitat example_rs example_dep_full example_vel_shifted example_raw (Fin (3/5))
       = Inr \<lparr>r_si_h = [Fin 1, Fin 1], r_si_v = [Fin 1, Fin 10000], r_chsi = [Fin 1, Fin 100],
              r_n_pixels = 2, r_pixel_area_m2 = 100, r_total_area_m2 = 200\<rparr>"
  by (simp add: example_run_shifted summarize_example_shifted)
     (simp add: is_nodata_def example_vel_shifted_def)

text \<open>
  C7. Lemmas \<open>velocity_same_grid\<close>, \<open>velocity_other_grid\<close>, \<open>velocity_shape\<close> and
  \<open>velocity_cells\<close> give what holds: width, height and transform are compared for
  equality; on equal grids the band is used as stored, with its nodata and non-finite
  cells masked; otherwise the band is read at the depth raster's height and width; the
  result has the depth raster's shape on both paths. On the second path the read is not
  masked: for the velocity raster of the depth raster's size on a grid shifted by half
  a pixel, the cell that is nodata in the file (masked by a masked read) is the number
  -9999 in the array used downstream, and is not masked there.
\<close>

theorem regridded_velocity_keeps_nodata:
  "width example_vel_shifted = width example_dep_full
   \<and> height example_vel_shifted = height example_dep_full
   \<and> transform example_vel_shifted \<noteq> transform example_dep_full
   \<and> ma_mask (read_masked example_vel_shifted) = [False, True]
   \<and> velocity example_rs example_dep_full example_vel_shifted
       = \<lparr>ma_shape = (1, 2), ma_data = [Fin 0, Fin (-9999)], ma_mask = [False, False]\<rparr>"
  by (simp add: velocity_example_vel_shifted)
     (simp add: example_vel_shifted_def example_dep_full_def read_masked_def is_nodata_def)

subsection \<open>A curve of one point\<close>

text \<open>
  C8, as stated, fails: a table that leaves one break point per variable is loaded, and
  the run on a raster whose only cell sits on that break point returns its statistics.
\<close>

theorem one_point_curve_run:
  "read_suitability_csv example_raw_one = ([1], [1], [1], [1])
   \<and> calculate_habitat example_rs example_cell example_cell example_raw_one (Fin (3/5))
       = Inr \<lparr>r_si_h = [Fin 1], r_si_v = [Fin 1], r_chsi = [Fin 1],
              r_n_pixels = 1, r_pixel_area_m2 = 100, r_total_area_m2 = 100\<rparr>"
  by (simp add: example_curves_one example_run_one summarize_example_one)

section \<open>The interpolation in float64\<close>

lemma interp_in_range_rounded_exact:
  "interp_in_range_rounded (\<lambda>x. x) xp fp x = interp_in_range xp fp x"
  by (simp add: interp_in_range_rounded_def interp_in_range_def Let_def)

lemma binade_numeral:
  "binade (numeral k) x =
     (if 2 \<le> x then binade (pred_numeral k) (x / 2) + 1
      else if x < 1 then binade (pred_numeral k) (2 * x) - 1
      else 0)"
  by (simp add: numeral_eq_Suc)

lemmas f64_eval = f64_def binade_numeral rne_def Let_def power_int_minus

text \<open>The three inputs are doubles.\<close>

lemma example_doubles:
  "f64 d_0_2 = d_0_2" "f64 d_0_7 = d_0_7" "f64 d_below_0_2 = d_below_0_2" "f64 (- 1) = - 1"
  by (simp_all add: d_0_2_def d_0_7_def d_below_0_2_def f64_eval)









end
